theory Spec2Isabelle
  imports Complex_Main "HOL-Library.Word" "HOL-Library.Log_Nat"
begin

unbundle bit_operations_syntax

section \<open>Pronote to ICS: the refresh cache and the feed builder of \<^verbatim>\<open>src/main.py\<close>\<close>

text \<open>
  The development embeds the class \<^verbatim>\<open>PronoteBackend\<close>: the time normaliser
  \<^verbatim>\<open>_to_local\<close>, the single-slot cache \<^verbatim>\<open>get_lessons\<close> over \<^verbatim>\<open>_fetch_lessons\<close> and
  \<^verbatim>\<open>_login\<close>, the identifier \<^verbatim>\<open>_uid_for\<close> and the loop of \<^verbatim>\<open>lessons_to_ics\<close>.

  Conventions. A Python \<^verbatim>\<open>str\<close> is represented by its UTF-8 bytes (a \<^typ>\<open>string\<close>), so
  that concatenation is \<open>@\<close>, the empty string is \<open>[]\<close> and \<^verbatim>\<open>encode("utf-8")\<close> is the
  identity on the representation. A value that may be \<^verbatim>\<open>None\<close> is an \<open>option\<close>. The
  clock \<^verbatim>\<open>time.time()\<close> is a double-precision number, handed to the model as an
  argument, and the sum that gives the expiry is rounded as the machine rounds it.
  Exceptions are the left summand of a result type.
\<close>

subsection \<open>Exceptions\<close>

text \<open>
  The exceptions that can leave the modelled methods: the two \<^verbatim>\<open>RuntimeError\<close>s the
  program raises itself, with their messages; whatever the upstream library raises;
  and the \<^verbatim>\<open>OverflowError\<close> of the \<^verbatim>\<open>datetime\<close> module, raised when a date leaves the
  years 1 to 9999.
\<close>

datatype exn = RuntimeError string | UpstreamError string | OverflowError

subsection \<open>The \<^verbatim>\<open>datetime\<close> values the program handles\<close>

text \<open>
  A time zone object answers two questions, as Python's \<^verbatim>\<open>tzinfo\<close> does: the UTC
  offset of a wall-clock reading (with its \<^verbatim>\<open>fold\<close> flag), and the wall-clock reading
  of a UTC reading. Offsets and readings are in microseconds, the resolution of
  \<^verbatim>\<open>timedelta\<close>. \<open>tz_id\<close> stands for the identity of the object: Python's
  \<^verbatim>\<open>tz is mytz\<close> is equality of the records. A zone always answers: one whose
  \<^verbatim>\<open>utcoffset\<close> is \<^verbatim>\<open>None\<close>, or whose methods raise on their own account, is outside
  the model.
\<close>

record tzinfo =
  tz_id :: nat
  utcoffset :: "int \<Rightarrow> bool \<Rightarrow> int"
  fromutc :: "int \<Rightarrow> int \<times> bool"

text \<open>
  A \<^verbatim>\<open>datetime\<close>: the wall-clock reading as microseconds since 0001-01-01T00:00:00 (the
  first instant of proleptic ordinal day 1), the \<^verbatim>\<open>fold\<close> flag and the attached zone,
  \<open>None\<close> for a naive value.
\<close>

record datetime =
  wall :: int
  fold :: bool
  tzinfo :: "tzinfo option"

definition usec_per_day :: int where
  "usec_per_day = 86400000000"

text \<open>
  The readings a \<^verbatim>\<open>datetime\<close> can hold are those of the years 1 to 9999: from 0 to the
  last microsecond of ordinal day 3652059 (9999-12-31). Arithmetic whose result is
  outside raises \<^verbatim>\<open>OverflowError\<close>.
\<close>

definition max_wall :: int where
  "max_wall = 3652059 * usec_per_day - 1"

definition in_range :: "int \<Rightarrow> bool" where
  "in_range w \<longleftrightarrow> 0 \<le> w \<and> w \<le> max_wall"

text \<open>\<^verbatim>\<open>dt.replace(tzinfo=tz)\<close>: the fields stay, the zone is exchanged.\<close>

definition replace_tzinfo :: "datetime \<Rightarrow> tzinfo option \<Rightarrow> datetime" where
  "replace_tzinfo dt tz = dt\<lparr>tzinfo := tz\<rparr>"

text \<open>\<^verbatim>\<open>dt.utcoffset()\<close>: \<open>None\<close> for a naive value, else what the zone answers.\<close>

definition dt_utcoffset :: "datetime \<Rightarrow> int option" where
  "dt_utcoffset dt =
     (case tzinfo dt of
        None \<Rightarrow> None
      | Some z \<Rightarrow> Some (utcoffset z (wall dt) (fold dt)))"

text \<open>
  \<^verbatim>\<open>dt.astimezone(tz)\<close> for an aware \<open>dt\<close>, as the library defines it: the value itself
  when \<open>tz\<close> is its own zone; otherwise the UTC reading \<open>dt - offset\<close>, handed to
  \<^verbatim>\<open>tz.fromutc\<close>, which adds the offset of the target zone. Both are date arithmetic:
  the subtraction raises \<^verbatim>\<open>OverflowError\<close> when the UTC reading is out of range, and
  so does the addition inside \<^verbatim>\<open>fromutc\<close> when the converted reading is. The program
  calls \<^verbatim>\<open>astimezone\<close> on aware values only; on a naive value the library would
  consult the system's local zone, which is outside this model, so the naive value is
  returned as it is.
\<close>

definition astimezone :: "datetime \<Rightarrow> tzinfo \<Rightarrow> exn + datetime" where
  "astimezone dt tz =
     (case tzinfo dt of
        None \<Rightarrow> Inr dt
      | Some mytz \<Rightarrow>
          if tz = mytz then Inr dt
          else (let utc = wall dt - utcoffset mytz (wall dt) (fold dt)
                in if \<not> in_range utc then Inl OverflowError
                   else (let r = fromutc tz utc
                         in if \<not> in_range (fst r) then Inl OverflowError
                            else Inr \<lparr>wall = fst r, fold = snd r, tzinfo = Some tz\<rparr>)))"

text \<open>The instant a zone-aware value denotes: its wall-clock reading less its offset.\<close>

definition instant :: "datetime \<Rightarrow> int option" where
  "instant dt = map_option (\<lambda>off. wall dt - off) (dt_utcoffset dt)"

subsection \<open>The proleptic Gregorian calendar of the \<^verbatim>\<open>datetime\<close> module\<close>

definition is_leap :: "int \<Rightarrow> bool" where
  "is_leap year \<longleftrightarrow> year mod 4 = 0 \<and> (year mod 100 \<noteq> 0 \<or> year mod 400 = 0)"

definition days_before_year :: "int \<Rightarrow> int" where
  "days_before_year year =
     (let y = year - 1 in y * 365 + y div 4 - y div 100 + y div 400)"

definition DAYS_IN_MONTH :: "int list" where
  "DAYS_IN_MONTH = [-1, 31, 28, 31, 30, 31, 30, 31, 31, 30, 31, 30, 31]"

definition DAYS_BEFORE_MONTH :: "int list" where
  "DAYS_BEFORE_MONTH = [-1, 0, 31, 59, 90, 120, 151, 181, 212, 243, 273, 304, 334]"

definition days_before_month :: "int \<Rightarrow> int \<Rightarrow> int" where
  "days_before_month year month =
     DAYS_BEFORE_MONTH ! nat month + (if month > 2 \<and> is_leap year then 1 else 0)"

definition ymd2ord :: "int \<Rightarrow> int \<Rightarrow> int \<Rightarrow> int" where
  "ymd2ord year month day =
     days_before_year year + days_before_month year month + day"

definition ord2ymd :: "int \<Rightarrow> int \<times> int \<times> int" where
  "ord2ymd ordinal =
     (let n = ordinal - 1;
          n400 = n div 146097; n = n mod 146097;
          n100 = n div 36524; n = n mod 36524;
          n4 = n div 1461; n = n mod 1461;
          n1 = n div 365; n = n mod 365;
          year = n400 * 400 + 1 + n100 * 100 + n4 * 4 + n1
      in if n1 = 4 \<or> n100 = 4 then (year - 1, 12, 31)
         else
           (let leapyear = (n1 = 3 \<and> (n4 \<noteq> 24 \<or> n100 = 3));
                month = (n + 50) div 32;
                preceding = DAYS_BEFORE_MONTH ! nat month
                            + (if month > 2 \<and> leapyear then 1 else 0)
            in if preceding > n
               then (let month' = month - 1;
                         preceding' = preceding
                           - (DAYS_IN_MONTH ! nat month'
                              + (if month' = 2 \<and> leapyear then 1 else 0))
                     in (year, month', n - preceding' + 1))
               else (year, month, n - preceding + 1)))"

text \<open>
  The constructor \<^verbatim>\<open>datetime(year, month, day, hour, minute, second, microsecond,
  tzinfo)\<close>, for arguments in the ranges it accepts.
\<close>

definition mk_datetime ::
  "int \<Rightarrow> int \<Rightarrow> int \<Rightarrow> int \<Rightarrow> int \<Rightarrow> int \<Rightarrow> int \<Rightarrow> tzinfo option \<Rightarrow> datetime" where
  "mk_datetime year month day hour minute second microsecond tz =
     \<lparr>wall = (ymd2ord year month day - 1) * usec_per_day
             + ((hour * 60 + minute) * 60 + second) * 1000000 + microsecond,
      fold = False,
      tzinfo = tz\<rparr>"

subsection \<open>Formatting: \<^verbatim>\<open>isoformat\<close>\<close>

definition digit_char :: "nat \<Rightarrow> char" where
  "digit_char d = ''0123456789'' ! d"

fun decimal :: "nat \<Rightarrow> string" where
  "decimal n = (if n < 10 then [digit_char n] else decimal (n div 10) @ [digit_char (n mod 10)])"

text \<open>\<^verbatim>\<open>"%0wd" % n\<close> for a non-negative \<open>n\<close>.\<close>

definition zero_padded :: "nat \<Rightarrow> int \<Rightarrow> string" where
  "zero_padded w n =
     (let s = decimal (nat n) in replicate (w - length s) (CHR ''0'') @ s)"

text \<open>
  \<^verbatim>\<open>_format_offset\<close>: sign, hours and minutes, then seconds and microseconds only when
  they are not zero; the empty string when there is no offset.
\<close>

definition format_offset :: "int option \<Rightarrow> string" where
  "format_offset off =
     (case off of
        None \<Rightarrow> []
      | Some off0 \<Rightarrow>
          (let sign = (if off0 < 0 then ''-'' else ''+'');
               off1 = (if off0 < 0 then - off0 else off0);
               hh = off1 div 3600000000; mm0 = off1 mod 3600000000;
               mm = mm0 div 60000000; ss = mm0 mod 60000000
           in sign @ zero_padded 2 hh @ '':'' @ zero_padded 2 mm
              @ (if ss \<noteq> 0
                 then '':'' @ zero_padded 2 (ss div 1000000)
                      @ (if ss mod 1000000 \<noteq> 0
                         then ''.'' @ zero_padded 6 (ss mod 1000000) else [])
                 else [])))"

text \<open>
  \<^verbatim>\<open>dt.isoformat()\<close> with the default separator and time specification: date, \<open>T\<close>,
  time, the microseconds when they are not zero, and the offset of an aware value.
\<close>

definition isoformat :: "datetime \<Rightarrow> string" where
  "isoformat dt =
     (let days = wall dt div usec_per_day;
          rest = wall dt mod usec_per_day;
          ymd = ord2ymd (days + 1);
          secs = rest div 1000000; us = rest mod 1000000;
          hh = secs div 3600; mi = (secs mod 3600) div 60; ss = secs mod 60
      in zero_padded 4 (fst ymd) @ ''-'' @ zero_padded 2 (fst (snd ymd)) @ ''-''
         @ zero_padded 2 (snd (snd ymd)) @ ''T''
         @ zero_padded 2 hh @ '':'' @ zero_padded 2 mi @ '':'' @ zero_padded 2 ss
         @ (if us \<noteq> 0 then ''.'' @ zero_padded 6 us else [])
         @ format_offset (dt_utcoffset dt))"

subsection \<open>\<^verbatim>\<open>PronoteBackend._to_local\<close>\<close>

text \<open>
  \<^verbatim>\<open>None\<close> stays \<^verbatim>\<open>None\<close>; a naive value gets the backend's zone attached; an aware
  value is converted to it, and the \<^verbatim>\<open>OverflowError\<close> of the conversion leaves the
  method. The backend's zone is a zone object, the one \<^verbatim>\<open>tz.gettz\<close> found for the
  configured name.
\<close>

definition to_local :: "tzinfo \<Rightarrow> datetime option \<Rightarrow> exn + datetime option" where
  "to_local local_tz dt =
     (case dt of
        None \<Rightarrow> Inr None
      | Some d \<Rightarrow>
          if tzinfo d = None then Inr (Some (replace_tzinfo d (Some local_tz)))
          else (case astimezone d local_tz of
                  Inl e \<Rightarrow> Inl e
                | Inr d' \<Rightarrow> Inr (Some d')))"

subsection \<open>The digest \<^verbatim>\<open>hashlib.sha1(bytes).hexdigest()\<close>\<close>

text \<open>
  SHA-1 as the standard defines it, on 32-bit words. The message is padded with the
  byte \<open>80\<close>, zero bytes and its length in bits as eight big-endian bytes, to a
  multiple of 64 bytes; each block of sixteen big-endian words is extended to eighty
  words and run through eighty rounds; the digest is the five chaining words in
  lower-case hexadecimal.
\<close>

type_synonym w32 = "32 word"

definition rotl :: "nat \<Rightarrow> w32 \<Rightarrow> w32" where
  "rotl n w = push_bit n w OR drop_bit (32 - n) w"

fun zeros :: "nat \<Rightarrow> nat list" where
  "zeros n = (if n = 0 then [] else 0 # zeros (n - 1))"

definition sha1_pad :: "string \<Rightarrow> nat list" where
  "sha1_pad msg =
     (let n = length msg;
          bits = 8 * n
      in map of_char msg @ [128] @ zeros ((119 - n mod 64) mod 64)
         @ map (\<lambda>i. (bits div 256 ^ (7 - i)) mod 256) [0, 1, 2, 3, 4, 5, 6, 7])"

fun be_words :: "nat list \<Rightarrow> w32 list" where
  "be_words (a # b # c # d # rest) =
     (((word_of_nat a * 256 + word_of_nat b) * 256 + word_of_nat c) * 256 + word_of_nat d)
       # be_words rest"
| "be_words rest = []"

fun blocks :: "w32 list \<Rightarrow> w32 list list" where
  "blocks (w0 # w1 # w2 # w3 # w4 # w5 # w6 # w7 # w8 # w9 # w10 # w11 # w12 # w13 # w14
            # w15 # rest) =
     [w0, w1, w2, w3, w4, w5, w6, w7, w8, w9, w10, w11, w12, w13, w14, w15] # blocks rest"
| "blocks rest = []"

text \<open>
  The message schedule, kept with the newest word first: word \<open>t\<close> is the rotation by
  one of the exclusive or of words \<open>t - 3\<close>, \<open>t - 8\<close>, \<open>t - 14\<close> and \<open>t - 16\<close>.
\<close>

function schedule :: "nat \<Rightarrow> w32 list \<Rightarrow> w32 list" where
  "schedule t ws =
     (if 80 \<le> t then ws
      else schedule (t + 1) (rotl 1 (ws ! 2 XOR ws ! 7 XOR ws ! 13 XOR ws ! 15) # ws))"
  by pat_completeness auto
termination
  by (relation "measure (\<lambda>(t, ws). 80 - t)") auto

declare schedule.simps [simp del]
declare zeros.simps [simp del]

definition sha1_f :: "nat \<Rightarrow> w32 \<Rightarrow> w32 \<Rightarrow> w32 \<Rightarrow> w32" where
  "sha1_f t b c d =
     (if t < 20 then (b AND c) OR (NOT b AND d)
      else if t < 40 then b XOR c XOR d
      else if t < 60 then (b AND c) OR (b AND d) OR (c AND d)
      else b XOR c XOR d)"

definition sha1_k :: "nat \<Rightarrow> w32" where
  "sha1_k t =
     (if t < 20 then 0x5A827999 else if t < 40 then 0x6ED9EBA1
      else if t < 60 then 0x8F1BBCDC else 0xCA62C1D6)"

type_synonym sha1_state = "w32 \<times> w32 \<times> w32 \<times> w32 \<times> w32"

fun sha1_rounds :: "nat \<Rightarrow> w32 list \<Rightarrow> sha1_state \<Rightarrow> sha1_state" where
  "sha1_rounds t [] s = s"
| "sha1_rounds t (w # ws) (a, b, c, d, e) =
     sha1_rounds (t + 1) ws
       (rotl 5 a + sha1_f t b c d + e + sha1_k t + w, a, rotl 30 b, c, d)"

fun sha1_block :: "sha1_state \<Rightarrow> w32 list \<Rightarrow> sha1_state" where
  "sha1_block (h0, h1, h2, h3, h4) ws =
     (case sha1_rounds 0 (rev (schedule 16 (rev ws))) (h0, h1, h2, h3, h4) of
        (a, b, c, d, e) \<Rightarrow> (h0 + a, h1 + b, h2 + c, h3 + d, h4 + e))"

definition hex_digit :: "nat \<Rightarrow> char" where
  "hex_digit d = ''0123456789abcdef'' ! d"

definition hex32 :: "w32 \<Rightarrow> string" where
  "hex32 w =
     map (\<lambda>i. hex_digit (unat (drop_bit (4 * (7 - i)) w AND 15))) [0, 1, 2, 3, 4, 5, 6, 7]"

definition sha1_hexdigest :: "string \<Rightarrow> string" where
  "sha1_hexdigest msg =
     (case foldl sha1_block (0x67452301, 0xEFCDAB89, 0x98BADCFE, 0x10325476, 0xC3D2E1F0)
             (blocks (be_words (sha1_pad msg))) of
        (h0, h1, h2, h3, h4) \<Rightarrow> hex32 h0 @ hex32 h1 @ hex32 h2 @ hex32 h3 @ hex32 h4)"

subsection \<open>\<^verbatim>\<open>PronoteBackend._uid_for\<close>\<close>

text \<open>
  The formatted string, encoded (the identity on the representation), digested, and
  followed by the suffix.
\<close>

definition uid_for :: "datetime \<Rightarrow> string \<Rightarrow> string \<Rightarrow> string \<Rightarrow> string" where
  "uid_for start_dt title room teacher =
     (let base = isoformat start_dt @ ''|'' @ title @ ''|'' @ room @ ''|'' @ teacher
      in sha1_hexdigest base @ ''@pronote-ics'')"

subsection \<open>Lesson records and Python's \<^verbatim>\<open>getattr\<close>, \<^verbatim>\<open>or\<close> and \<^verbatim>\<open>bool\<close>\<close>

text \<open>
  A lesson is an object of the upstream library; the program reads it only through
  \<^verbatim>\<open>getattr(lesson, name, default)\<close>. Each attribute it reads is a field here:
  \<open>NoAttr\<close> when the object has no such attribute, \<open>Attr v\<close> when it has, and \<open>v\<close> is
  \<open>None\<close> for Python's \<^verbatim>\<open>None\<close>. Timestamps are \<^verbatim>\<open>datetime\<close> values, the text
  attributes are strings, \<^verbatim>\<open>canceled\<close> is a Boolean.
\<close>

datatype 'a attr = NoAttr | Attr 'a

record lesson =
  lesson_start :: "datetime option attr"
  lesson_end :: "datetime option attr"
  lesson_subject :: "string option attr"
  lesson_subject_name :: "string option attr"
  lesson_classroom :: "string option attr"
  lesson_classroom_name :: "string option attr"
  lesson_teacher :: "string option attr"
  lesson_teacher_name :: "string option attr"
  lesson_group_name :: "string option attr"
  lesson_canceled :: "bool option attr"

fun getattr :: "'a attr \<Rightarrow> 'a \<Rightarrow> 'a" where
  "getattr NoAttr dflt = dflt"
| "getattr (Attr v) dflt = v"

text \<open>Truth values: \<^verbatim>\<open>None\<close> and the empty string are false, a \<^verbatim>\<open>datetime\<close> is true.\<close>

fun truthy_str :: "string option \<Rightarrow> bool" where
  "truthy_str None = False"
| "truthy_str (Some s) = (s \<noteq> [])"

fun truthy_dt :: "datetime option \<Rightarrow> bool" where
  "truthy_dt None = False"
| "truthy_dt (Some d) = True"

text \<open>\<^verbatim>\<open>a or b\<close> is \<open>a\<close> when \<open>a\<close> is true and \<open>b\<close> otherwise.\<close>

definition py_or :: "string option \<Rightarrow> string option \<Rightarrow> string option" where
  "py_or a b = (if truthy_str a then a else b)"

text \<open>\<^verbatim>\<open>a or "literal"\<close>: the result is a string.\<close>

definition or_literal :: "string option \<Rightarrow> string \<Rightarrow> string" where
  "or_literal a lit = (case py_or a (Some lit) of Some s \<Rightarrow> s | None \<Rightarrow> lit)"

fun py_bool :: "bool option \<Rightarrow> bool" where
  "py_bool None = False"
| "py_bool (Some b) = b"

text \<open>The four display fields and the flag, lines 142 to 146 of the source.\<close>

definition lesson_title :: "lesson \<Rightarrow> string" where
  "lesson_title lesson =
     or_literal (py_or (getattr (lesson_subject lesson) None)
                       (getattr (lesson_subject_name lesson) (Some [])))
                ''Cours''"

definition lesson_room :: "lesson \<Rightarrow> string" where
  "lesson_room lesson =
     or_literal (py_or (getattr (lesson_classroom lesson) (Some []))
                       (getattr (lesson_classroom_name lesson) (Some [])))
                []"

definition lesson_teacher_str :: "lesson \<Rightarrow> string" where
  "lesson_teacher_str lesson =
     or_literal (py_or (getattr (lesson_teacher lesson) (Some []))
                       (getattr (lesson_teacher_name lesson) (Some [])))
                []"

definition lesson_group :: "lesson \<Rightarrow> string" where
  "lesson_group lesson = or_literal (getattr (lesson_group_name lesson) (Some [])) []"

definition lesson_is_canceled :: "lesson \<Rightarrow> bool" where
  "lesson_is_canceled lesson = py_bool (getattr (lesson_canceled lesson) (Some False))"

subsection \<open>Calendar events and \<^verbatim>\<open>PronoteBackend.lessons_to_ics\<close>\<close>

text \<open>
  An event holds the properties the program adds to it; \<open>ev_location\<close> is \<open>None\<close> when
  no location is added. A calendar holds its two header properties and its events in
  the order \<^verbatim>\<open>add_component\<close> received them.
\<close>

record event =
  ev_summary :: string
  ev_description :: string
  ev_location :: "string option"
  ev_uid :: string
  ev_dtstart :: datetime
  ev_dtend :: datetime
  ev_status :: string

record calendar =
  cal_prodid :: string
  cal_version :: string
  cal_components :: "event list"

definition add_component :: "calendar \<Rightarrow> event \<Rightarrow> calendar" where
  "add_component cal ev = cal\<lparr>cal_components := cal_components cal @ [ev]\<rparr>"

text \<open>\<^verbatim>\<open>"\n".join(lines)\<close>\<close>

fun join_lines :: "string list \<Rightarrow> string" where
  "join_lines [] = []"
| "join_lines [l] = l"
| "join_lines (l # m # ls) = l @ [CHR 0x0A] @ join_lines (m # ls)"

text \<open>
  The description lines. The literals are the UTF-8 bytes of the source's French
  texts: the middle dot is \<open>C2 B7\<close>, the acute e \<open>C3 A9\<close>, the warning sign with its
  variation selector \<open>E2 9A A0 EF B8 8F\<close>.
\<close>

definition desc_lines :: "string \<Rightarrow> string \<Rightarrow> bool \<Rightarrow> string list" where
  "desc_lines teacher room canceled =
     (if teacher \<noteq> [] then [''Enseignant'' @ [CHR 0xC2, CHR 0xB7] @ ''e : '' @ teacher] else [])
     @ (if room \<noteq> [] then [''Salle : '' @ room] else [])
     @ (if canceled
        then [[CHR 0xE2, CHR 0x9A, CHR 0xA0, CHR 0xEF, CHR 0xB8, CHR 0x8F] @ '' S''
              @ [CHR 0xC3, CHR 0xA9] @ ''ance annul'' @ [CHR 0xC3, CHR 0xA9] @ ''e'']
        else [])"

text \<open>
  One turn of the loop. Start and end are normalised first, in this order, and an
  exception of either leaves the loop. Then \<open>Inr None\<close> is the \<^verbatim>\<open>continue\<close> taken when
  start or end is not true, and \<open>Inr (Some ev)\<close> the event that is added to the
  calendar.
\<close>

definition lesson_event :: "tzinfo \<Rightarrow> lesson \<Rightarrow> exn + event option" where
  "lesson_event local_tz lesson =
     (case to_local local_tz (getattr (lesson_start lesson) None) of
        Inl e \<Rightarrow> Inl e
      | Inr start \<Rightarrow>
          (case to_local local_tz (getattr (lesson_end lesson) None) of
             Inl e \<Rightarrow> Inl e
           | Inr end_dt \<Rightarrow>
               if \<not> (truthy_dt start \<and> truthy_dt end_dt) then Inr None
               else
                 (let title = lesson_title lesson;
                      room = lesson_room lesson;
                      teacher = lesson_teacher_str lesson;
                      grp = lesson_group lesson;
                      canceled = lesson_is_canceled lesson;
                      lines = desc_lines teacher room canceled
                  in Inr (Some
                       \<lparr>ev_summary = (if grp = [] then title else title @ '' ('' @ grp @ '')''),
                        ev_description =
                          (if lines \<noteq> [] then join_lines lines
                           else ''S'' @ [CHR 0xC3, CHR 0xA9] @ ''ance''),
                        ev_location = (if room \<noteq> [] then Some room else None),
                        ev_uid = uid_for (the start) title room teacher,
                        ev_dtstart = the start,
                        ev_dtend = the end_dt,
                        ev_status = (if canceled then ''CANCELLED'' else ''CONFIRMED'')\<rparr>))))"

fun lessons_loop :: "tzinfo \<Rightarrow> lesson list \<Rightarrow> calendar \<Rightarrow> exn + calendar" where
  "lessons_loop local_tz [] cal = Inr cal"
| "lessons_loop local_tz (lesson # rest) cal =
     (case lesson_event local_tz lesson of
        Inl e \<Rightarrow> Inl e
      | Inr None \<Rightarrow> lessons_loop local_tz rest cal
      | Inr (Some ev) \<Rightarrow> lessons_loop local_tz rest (add_component cal ev))"

text \<open>
  The calendar as it stands when the loop is over, before it is serialised, or the
  exception that left the loop.
\<close>

definition lessons_calendar :: "tzinfo \<Rightarrow> lesson list \<Rightarrow> exn + calendar" where
  "lessons_calendar local_tz lessons =
     lessons_loop local_tz lessons
       \<lparr>cal_prodid = ''-//Pronote ICS//Assia//FR'', cal_version = ''2.0'', cal_components = []\<rparr>"

text \<open>
  \<^verbatim>\<open>lessons_to_ics\<close> returns \<^verbatim>\<open>cal.to_ical()\<close>; the serialiser belongs to the
  \<^verbatim>\<open>icalendar\<close> library and is the parameter \<open>to_ical\<close>.
\<close>

definition lessons_to_ics ::
  "(calendar \<Rightarrow> 'b) \<Rightarrow> tzinfo \<Rightarrow> lesson list \<Rightarrow> exn + 'b" where
  "lessons_to_ics to_ical local_tz lessons =
     (case lessons_calendar local_tz lessons of
        Inl e \<Rightarrow> Inl e
      | Inr cal \<Rightarrow> Inr (to_ical cal))"

subsection \<open>Double-precision numbers\<close>

text \<open>
  The clock readings and the expiry are Python \<^verbatim>\<open>float\<close>s, that is, binary doubles. A
  double is given by an integer mantissa and an exponent and denotes
  \<open>mantissa * 2 ^ exponent\<close>; its mantissa has at most 53 bits. The exponent is not
  bounded here: overflow to infinity and subnormal results, which need magnitudes
  above \<open>1.7e308\<close> or below \<open>2.3e-308\<close>, are outside the model.
\<close>

type_synonym double = "int \<times> int"

definition dval :: "double \<Rightarrow> real" where
  "dval d = real_of_int (fst d) * 2 powi (snd d)"

definition is_double :: "double \<Rightarrow> bool" where
  "is_double d \<longleftrightarrow> \<bar>fst d\<bar> < 2 ^ 53"

text \<open>
  Dropping the \<open>k\<close> low bits of a mantissa with rounding to nearest, a tie going to
  the even neighbour.
\<close>

definition rne_shift :: "int \<Rightarrow> nat \<Rightarrow> int" where
  "rne_shift m k =
     (let q = m div 2 ^ k; r = m mod 2 ^ k; h = 2 ^ (k - 1)
      in if r < h then q else if h < r then q + 1 else if even q then q else q + 1)"

text \<open>
  Rounding an exact binary fraction to a double: a mantissa of up to 53 bits is kept,
  a longer one loses its low bits; a mantissa that the rounding carries to \<open>2 ^ 53\<close>
  is halved.
\<close>

definition round53 :: "double \<Rightarrow> double" where
  "round53 d =
     (let k = bitlen \<bar>fst d\<bar> - 53
      in if k \<le> 0 then d
         else (let m = rne_shift (fst d) (nat k)
               in if \<bar>m\<bar> = 2 ^ 53 then (m div 2, snd d + k + 1) else (m, snd d + k)))"

text \<open>The exact sum of two binary fractions, and the sum of two doubles as the machine gives it.\<close>

definition exact_add :: "double \<Rightarrow> double \<Rightarrow> double" where
  "exact_add a b =
     (let e = min (snd a) (snd b)
      in (fst a * 2 ^ nat (snd a - e) + fst b * 2 ^ nat (snd b - e), e))"

definition dadd :: "double \<Rightarrow> double \<Rightarrow> double" where
  "dadd a b = round53 (exact_add a b)"

text \<open>
  The conversion of an \<^verbatim>\<open>int\<close> operand, which \<^verbatim>\<open>float + int\<close> performs first: exact
  below \<open>2 ^ 53\<close> in magnitude, rounded above.
\<close>

definition double_of_int :: "int \<Rightarrow> double" where
  "double_of_int i = round53 (i, 0)"

text \<open>The comparison \<^verbatim>\<open>a < b\<close>, exact.\<close>

definition dless :: "double \<Rightarrow> double \<Rightarrow> bool" where
  "dless a b =
     (let e = min (snd a) (snd b)
      in fst a * 2 ^ nat (snd a - e) < fst b * 2 ^ nat (snd b - e))"

subsection \<open>The backend object and the upstream library\<close>

text \<open>
  A \<^verbatim>\<open>date\<close> is compared by value only; it is its proleptic ordinal. The stored
  range starts as \<^verbatim>\<open>(None, None)\<close>; the dates of a request are \<^verbatim>\<open>date\<close> objects. The
  expiry starts as the integer 0, which compares as the double 0.
\<close>

type_synonym date = int

record backend =
  url :: string
  user :: string
  pwd :: string
  ent_name :: string
  local_tz :: tzinfo
  cache_ttl :: int
  cache_until :: double
  cache_range :: "date option \<times> date option"
  cache_lessons :: "lesson list"

text \<open>
  \<^verbatim>\<open>str.strip()\<close>: the white space characters of Python, in their UTF-8 encodings. They
  are the code points 9 to 13, 28 to 32, 85 and A0 (hexadecimal), 1680, 2000 to 200A,
  2028, 2029, 202F, 205F and 3000.
\<close>

definition white_space :: "string list" where
  "white_space =
     [[CHR 0x09], [CHR 0x0A], [CHR 0x0B], [CHR 0x0C], [CHR 0x0D],
      [CHR 0x1C], [CHR 0x1D], [CHR 0x1E], [CHR 0x1F], [CHR 0x20],
      [CHR 0xC2, CHR 0x85], [CHR 0xC2, CHR 0xA0], [CHR 0xE1, CHR 0x9A, CHR 0x80],
      [CHR 0xE2, CHR 0x80, CHR 0x80], [CHR 0xE2, CHR 0x80, CHR 0x81],
      [CHR 0xE2, CHR 0x80, CHR 0x82], [CHR 0xE2, CHR 0x80, CHR 0x83],
      [CHR 0xE2, CHR 0x80, CHR 0x84], [CHR 0xE2, CHR 0x80, CHR 0x85],
      [CHR 0xE2, CHR 0x80, CHR 0x86], [CHR 0xE2, CHR 0x80, CHR 0x87],
      [CHR 0xE2, CHR 0x80, CHR 0x88], [CHR 0xE2, CHR 0x80, CHR 0x89],
      [CHR 0xE2, CHR 0x80, CHR 0x8A], [CHR 0xE2, CHR 0x80, CHR 0xA8],
      [CHR 0xE2, CHR 0x80, CHR 0xA9], [CHR 0xE2, CHR 0x80, CHR 0xAF],
      [CHR 0xE2, CHR 0x81, CHR 0x9F], [CHR 0xE3, CHR 0x80, CHR 0x80]]"

text \<open>
  Removing leading characters of a given list, as long as there is one; a trailing
  character is a leading one of the reversed string, with its bytes reversed.
\<close>

function lstrip_chars :: "string list \<Rightarrow> string \<Rightarrow> string" where
  "lstrip_chars cs s =
     (case find (\<lambda>c. c \<noteq> [] \<and> take (length c) s = c) cs of
        None \<Rightarrow> s
      | Some c \<Rightarrow> lstrip_chars cs (drop (length c) s))"
  by pat_completeness auto
termination
proof (relation "measure (\<lambda>(cs, s). length s)")
  show "wf (measure (\<lambda>(cs, s). length s))" by simp
next
  fix cs :: "string list" and s c :: string
  assume "find (\<lambda>c. c \<noteq> [] \<and> take (length c) s = c) cs = Some c"
  then have "c \<noteq> []" and "take (length c) s = c"
    by (auto simp: find_Some_iff)
  then have "s \<noteq> []" by auto
  with \<open>c \<noteq> []\<close> show "((cs, drop (length c) s), (cs, s)) \<in> measure (\<lambda>(cs, s). length s)"
    by simp
qed

declare lstrip_chars.simps [simp del]

definition strip :: "string \<Rightarrow> string" where
  "strip s = rev (lstrip_chars (map rev white_space) (rev (lstrip_chars white_space s)))"

text \<open>\<^verbatim>\<open>PronoteBackend.__init__\<close>\<close>

definition new_backend ::
  "string \<Rightarrow> string \<Rightarrow> string \<Rightarrow> string \<Rightarrow> tzinfo \<Rightarrow> int \<Rightarrow> backend" where
  "new_backend url0 user0 pwd0 ent_name0 local_tz0 cache_ttl0 =
     \<lparr>url = url0, user = user0, pwd = pwd0, ent_name = strip ent_name0,
      local_tz = local_tz0, cache_ttl = cache_ttl0,
      cache_until = (0, 0), cache_range = (None, None), cache_lessons = []\<rparr>"

text \<open>
  What \<^verbatim>\<open>pronotepy.Client(url, username=..., password=...)\<close> gives: an exception, or a
  client with its \<^verbatim>\<open>logged_in\<close> flag and its \<^verbatim>\<open>timetable\<close> method. The upstream
  service may answer differently each time it is asked, so the library is a function
  of the number of fetches made before.
\<close>

record client =
  logged_in :: bool
  timetable :: "date \<Rightarrow> date \<Rightarrow> exn + lesson list"

type_synonym pronotepy = "nat \<Rightarrow> string \<Rightarrow> string \<Rightarrow> string \<Rightarrow> exn + client"

text \<open>\<^verbatim>\<open>PronoteBackend._login\<close>\<close>

definition login :: "pronotepy \<Rightarrow> nat \<Rightarrow> backend \<Rightarrow> exn + client" where
  "login Client n self =
     (if ent_name self \<noteq> []
      then Inl (RuntimeError (''Cette version de pronotepy ne g'' @ [CHR 0xC3, CHR 0xA8]
                              @ ''re pas ent_list directement.''))
      else
        (case Client n (url self) (user self) (pwd self) of
           Inl e \<Rightarrow> Inl e
         | Inr c \<Rightarrow>
             if \<not> logged_in c
             then Inl (RuntimeError ([CHR 0xC3, CHR 0x89] @ ''chec de connexion (v''
                                     @ [CHR 0xC3, CHR 0xA9] @ ''rifie URL/identifiants).''))
             else Inr c))"

text \<open>\<^verbatim>\<open>PronoteBackend._fetch_lessons\<close>: the upstream fetch.\<close>

definition fetch_lessons :: "pronotepy \<Rightarrow> nat \<Rightarrow> backend \<Rightarrow> date \<Rightarrow> date \<Rightarrow> exn + lesson list" where
  "fetch_lessons Client n self start_date end_date =
     (case login Client n self of
        Inl e \<Rightarrow> Inl e
      | Inr c \<Rightarrow> timetable c start_date end_date)"

subsection \<open>\<^verbatim>\<open>PronoteBackend.get_lessons\<close>\<close>

text \<open>The condition of the \<^verbatim>\<open>if\<close> at the head of \<^verbatim>\<open>get_lessons\<close>.\<close>

definition cache_hit :: "backend \<Rightarrow> date \<Rightarrow> date \<Rightarrow> double \<Rightarrow> bool" where
  "cache_hit self start_date end_date now \<longleftrightarrow>
     dless now (cache_until self)
     \<and> fst (cache_range self) = Some start_date
     \<and> snd (cache_range self) = Some end_date"

text \<open>
  \<^verbatim>\<open>get_lessons\<close> with its effects made explicit. It takes the backend, the number
  \<open>n\<close> of upstream fetches made so far, the requested dates and the reading \<open>now\<close> of
  the clock; it gives what the caller receives (the lessons, or the exception that
  escapes), the backend afterwards and the number of fetches afterwards. An exception
  of the fetch leaves before any of the three assignments. The new expiry is the sum
  \<^verbatim>\<open>now + self.cache_ttl\<close> of a \<^verbatim>\<open>float\<close> and an \<^verbatim>\<open>int\<close>.
\<close>

definition get_lessons ::
  "pronotepy \<Rightarrow> backend \<Rightarrow> nat \<Rightarrow> date \<Rightarrow> date \<Rightarrow> double
     \<Rightarrow> (exn + lesson list) \<times> backend \<times> nat" where
  "get_lessons Client self n start_date end_date now =
     (if cache_hit self start_date end_date now
      then (Inr (cache_lessons self), self, n)
      else
        (case fetch_lessons Client n self start_date end_date of
           Inl e \<Rightarrow> (Inl e, self, Suc n)
         | Inr lessons \<Rightarrow>
             (Inr lessons,
              self\<lparr>cache_lessons := lessons,
                   cache_range := (Some start_date, Some end_date),
                   cache_until := dadd now (double_of_int (cache_ttl self))\<rparr>,
              Suc n)))"

subsection \<open>Sequences of requests\<close>

text \<open>
  A request is its two dates and the clock reading at which it runs. A run threads
  the backend and the fetch counter through the requests in order, whatever each one
  returns. Beside them it keeps \<open>created\<close>: the clock reading of the request that
  stored the cached result now held, \<open>None\<close> while none has been stored.
\<close>

type_synonym request = "date \<times> date \<times> double"

type_synonym run_state = "backend \<times> nat \<times> double option"

fun request_step :: "pronotepy \<Rightarrow> run_state \<Rightarrow> request \<Rightarrow> run_state" where
  "request_step Client (self, n, created) (start_date, end_date, now) =
     (case get_lessons Client self n start_date end_date now of
        (res, self', n') \<Rightarrow>
          (self', n',
           if \<not> cache_hit self start_date end_date now \<and> \<not> isl res
           then Some now else created))"

fun run :: "pronotepy \<Rightarrow> run_state \<Rightarrow> request list \<Rightarrow> run_state" where
  "run Client st [] = st"
| "run Client st (rq # rqs) = run Client (request_step Client st rq) rqs"

definition initial :: "backend \<Rightarrow> run_state" where
  "initial self = (self, 0, None)"

subsection \<open>Concrete values for the examples\<close>

text \<open>
  A zone with one fixed offset, as \<^verbatim>\<open>datetime.timezone(timedelta(microseconds=off))\<close>
  is: the offset of every reading is \<open>off\<close>, and a UTC reading is moved by \<open>off\<close>.
\<close>

definition fixed_offset :: "nat \<Rightarrow> int \<Rightarrow> tzinfo" where
  "fixed_offset i off =
     \<lparr>tz_id = i, utcoffset = (\<lambda>w f. off), fromutc = (\<lambda>u. (u + off, False))\<rparr>"

definition utc_zone :: tzinfo where
  "utc_zone = fixed_offset 0 0"

definition plus_one_hour :: tzinfo where
  "plus_one_hour = fixed_offset 1 3600000000"

definition plus_two_hours :: tzinfo where
  "plus_two_hours = fixed_offset 2 7200000000"

text \<open>
  The example of the specification: Math in B12 with Dupont, from 08:00 to 09:00 at
  UTC+01:00 on 4 March 2024, not cancelled.
\<close>

definition no_lesson :: lesson where
  "no_lesson =
     \<lparr>lesson_start = NoAttr, lesson_end = NoAttr, lesson_subject = NoAttr,
      lesson_subject_name = NoAttr, lesson_classroom = NoAttr,
      lesson_classroom_name = NoAttr, lesson_teacher = NoAttr,
      lesson_teacher_name = NoAttr, lesson_group_name = NoAttr,
      lesson_canceled = NoAttr\<rparr>"

definition math_lesson :: lesson where
  "math_lesson =
     no_lesson
       \<lparr>lesson_start := Attr (Some (mk_datetime 2024 3 4 8 0 0 0 (Some plus_one_hour))),
        lesson_end := Attr (Some (mk_datetime 2024 3 4 9 0 0 0 (Some plus_one_hour))),
        lesson_subject := Attr (Some ''Math''),
        lesson_classroom := Attr (Some ''B12''),
        lesson_teacher := Attr (Some ''Dupont''),
        lesson_canceled := Attr (Some False)\<rparr>"

text \<open>A lesson with naive times, no subject under either name, and a group.\<close>

definition untitled_lesson :: lesson where
  "untitled_lesson =
     no_lesson
       \<lparr>lesson_start := Attr (Some (mk_datetime 2024 3 5 10 0 0 0 None)),
        lesson_end := Attr (Some (mk_datetime 2024 3 5 11 0 0 0 None)),
        lesson_subject := Attr None,
        lesson_subject_name := Attr (Some []),
        lesson_group_name := Attr (Some ''G1'')\<rparr>"

text \<open>A lesson whose start is \<^verbatim>\<open>None\<close>.\<close>

definition untimed_lesson :: lesson where
  "untimed_lesson =
     math_lesson\<lparr>lesson_start := Attr None, lesson_subject := Attr (Some ''Sport'')\<rparr>"

text \<open>
  A lesson on the first day of year 1, from 00:30 to 01:30 at UTC+02:00: its UTC
  readings fall before the first instant a \<^verbatim>\<open>datetime\<close> can hold.
\<close>

definition year_one_lesson :: lesson where
  "year_one_lesson =
     math_lesson
       \<lparr>lesson_start := Attr (Some (mk_datetime 1 1 1 0 30 0 0 (Some plus_two_hours))),
        lesson_end := Attr (Some (mk_datetime 1 1 1 1 30 0 0 (Some plus_two_hours)))\<rparr>"

text \<open>
  An upstream that logs in and answers the first fetch with the Math lesson and every
  later one with no lesson; and one that raises at every attempt.
\<close>

definition changing_upstream :: pronotepy where
  "changing_upstream n url0 user0 pwd0 =
     Inr \<lparr>logged_in = True,
          timetable = (\<lambda>s e. Inr (if n = 0 then [math_lesson] else []))\<rparr>"

definition failing_upstream :: pronotepy where
  "failing_upstream n url0 user0 pwd0 = Inl (UpstreamError ''connection refused'')"

text \<open>
  A backend with a time to live of 120 seconds, and the window of a request for eight
  weeks made on 4 March 2024: from 26 February to 29 April, as ordinals.
\<close>

definition demo_backend :: backend where
  "demo_backend =
     new_backend ''https://demo.index-education.net/pronote/eleve.html'' ''demo'' ''secret''
       [] plus_one_hour 120"

definition window_start :: date where
  "window_start = 738942"

definition window_end :: date where
  "window_end = 739005"

text \<open>The backend after one successful fetch of that window at clock reading 1000.\<close>

definition warm_backend :: backend where
  "warm_backend =
     demo_backend\<lparr>cache_lessons := [math_lesson],
                  cache_range := (Some window_start, Some window_end),
                  cache_until := (1120, 0)\<rparr>"

text \<open>
  Two clock readings of a machine whose clock starts at the epoch: the doubles written
  \<^verbatim>\<open>0.1\<close> and \<^verbatim>\<open>120.1\<close>. The backend after one successful fetch at the first: its
  expiry is the second, which is what \<^verbatim>\<open>0.1 + 120\<close> evaluates to.
\<close>

definition clock_tenth :: double where
  "clock_tenth = (7205759403792794, - 56)"

definition clock_120_tenth :: double where
  "clock_120_tenth = (8451286175737446, - 46)"

definition early_backend :: backend where
  "early_backend =
     demo_backend\<lparr>cache_lessons := [math_lesson],
                  cache_range := (Some window_start, Some window_end),
                  cache_until := clock_120_tenth\<rparr>"

subsection \<open>Two invariants of runs\<close>

text \<open>
  \<open>expiry_inv ttl\<close>: the time to live is \<open>ttl\<close>; while no result has been stored the
  range is still \<^verbatim>\<open>(None, None)\<close>, and once one has been stored at clock reading \<open>t\<close>
  the range is set and the expiry is the machine's sum of \<open>t\<close> and \<open>ttl\<close>.
\<close>

definition expiry_inv :: "int \<Rightarrow> run_state \<Rightarrow> bool" where
  "expiry_inv ttl st \<longleftrightarrow>
     (case st of (self, n, created) \<Rightarrow>
        cache_ttl self = ttl
        \<and> (case created of
             None \<Rightarrow> cache_range self = (None, None)
           | Some t \<Rightarrow> cache_range self \<noteq> (None, None)
                       \<and> cache_until self = dadd t (double_of_int ttl)))"

text \<open>\<open>created_by T\<close>: the result now held, if any, was stored no later than \<open>T\<close>.\<close>

definition created_by :: "real \<Rightarrow> run_state \<Rightarrow> bool" where
  "created_by T st \<longleftrightarrow>
     (case st of (self, n, created) \<Rightarrow>
        (case created of None \<Rightarrow> True | Some t \<Rightarrow> dval t \<le> T))"

subsection \<open>Predicates used in the statements\<close>

text \<open>
  \<open>zone_agrees tz u\<close>: at the UTC reading \<open>u\<close> the two answers of the zone agree, that
  is, the wall-clock reading \<^verbatim>\<open>fromutc\<close> gives, less the offset the zone reports for
  it, is \<open>u\<close> again. The zone libraries are built to satisfy it.
\<close>

definition zone_agrees :: "tzinfo \<Rightarrow> int \<Rightarrow> bool" where
  "zone_agrees tz u \<longleftrightarrow>
     (case fromutc tz u of (w, f) \<Rightarrow> w - utcoffset tz w f = u)"

text \<open>
  \<open>converts tz d\<close>: the conversion of the aware timestamp \<open>d\<close> to another zone \<open>tz\<close>
  stays within the years 1 to 9999, at its UTC reading and at its reading in \<open>tz\<close>.
\<close>

definition converts :: "tzinfo \<Rightarrow> datetime \<Rightarrow> bool" where
  "converts tz d \<longleftrightarrow>
     (case tzinfo d of
        None \<Rightarrow> True
      | Some z \<Rightarrow>
          in_range (wall d - utcoffset z (wall d) (fold d))
          \<and> in_range (fst (fromutc tz (wall d - utcoffset z (wall d) (fold d)))))"

text \<open>
  \<open>times_ok\<close>: neither normalisation of the lesson raises. \<open>has_times\<close>: start and end
  of the lesson both normalise to a timestamp.
\<close>

definition times_ok :: "tzinfo \<Rightarrow> lesson \<Rightarrow> bool" where
  "times_ok tz lesson \<longleftrightarrow>
     \<not> isl (to_local tz (getattr (lesson_start lesson) None))
     \<and> \<not> isl (to_local tz (getattr (lesson_end lesson) None))"

definition has_times :: "tzinfo \<Rightarrow> lesson \<Rightarrow> bool" where
  "has_times tz lesson \<longleftrightarrow>
     (case (to_local tz (getattr (lesson_start lesson) None),
            to_local tz (getattr (lesson_end lesson) None)) of
        (Inr (Some s), Inr (Some e)) \<Rightarrow> True
      | _ \<Rightarrow> False)"

section \<open>Double-precision arithmetic\<close>

lemma two_powi_pos [simp]: "0 < (2::real) powi e"
  by (simp add: zero_less_power_int)

lemma two_powi_shift: "e \<le> a \<Longrightarrow> (2::real) ^ nat (a - e) * 2 powi e = 2 powi a"
proof -
  assume "e \<le> a"
  then have "(2::real) ^ nat (a - e) = 2 powi (a - e)"
    by (simp add: power_int_def)
  moreover have "(2::real) powi ((a - e) + e) = 2 powi (a - e) * 2 powi e"
    by (rule power_int_add) simp
  ultimately show ?thesis by simp
qed

lemma dval_scaled:
  "e \<le> snd a \<Longrightarrow> dval a = real_of_int (fst a * 2 ^ nat (snd a - e)) * 2 powi e"
  using two_powi_shift [of e "snd a"] by (simp add: dval_def mult.assoc)

lemma dval_exact_add: "dval (exact_add a b) = dval a + dval b"
proof -
  define e where "e = min (snd a) (snd b)"
  have "e \<le> snd a" "e \<le> snd b" by (simp_all add: e_def)
  then have "dval a = real_of_int (fst a * 2 ^ nat (snd a - e)) * 2 powi e"
    and "dval b = real_of_int (fst b * 2 ^ nat (snd b - e)) * 2 powi e"
    by (simp_all add: dval_scaled)
  moreover have "dval (exact_add a b)
      = real_of_int (fst a * 2 ^ nat (snd a - e) + fst b * 2 ^ nat (snd b - e)) * 2 powi e"
    by (simp add: exact_add_def dval_def e_def Let_def)
  ultimately show ?thesis by (simp add: algebra_simps)
qed

lemma dless_iff: "dless a b \<longleftrightarrow> dval a < dval b"
proof -
  define e where "e = min (snd a) (snd b)"
  have "e \<le> snd a" "e \<le> snd b" by (simp_all add: e_def)
  then have a: "dval a = real_of_int (fst a * 2 ^ nat (snd a - e)) * 2 powi e"
    and b: "dval b = real_of_int (fst b * 2 ^ nat (snd b - e)) * 2 powi e"
    by (simp_all add: dval_scaled)
  have "dless a b \<longleftrightarrow> fst a * 2 ^ nat (snd a - e) < fst b * 2 ^ nat (snd b - e)"
    by (simp add: dless_def e_def Let_def)
  also have "\<dots> \<longleftrightarrow> real_of_int (fst a * 2 ^ nat (snd a - e)) * 2 powi e
                     < real_of_int (fst b * 2 ^ nat (snd b - e)) * 2 powi e"
    by (simp only: mult_less_cancel_right_pos [OF two_powi_pos] of_int_less_iff)
  finally show ?thesis by (simp only: a b)
qed

lemma rne_shift_le:
  assumes "0 < k" and "M \<le> N * 2 ^ k"
  shows "rne_shift M k \<le> N"
proof -
  define q where "q = M div 2 ^ k"
  define r where "r = M mod 2 ^ k"
  have M: "M = q * 2 ^ k + r" unfolding q_def r_def by (rule div_mult_mod_eq [symmetric])
  have r: "0 \<le> r" "r < 2 ^ k" by (simp_all add: r_def)
  have "q \<le> (N * 2 ^ k) div 2 ^ k"
    unfolding q_def using assms(2) by (intro zdiv_mono1) simp_all
  then have qN: "q \<le> N" by simp
  have h: "(1::int) \<le> 2 ^ (k - 1)" by simp
  show ?thesis
  proof (cases "r = 0")
    case True
    with h have "rne_shift M k = q"
      by (simp add: rne_shift_def q_def [symmetric] r_def [symmetric] Let_def)
    with qN show ?thesis by simp
  next
    case False
    with r have "0 < r" by simp
    have "q \<noteq> N"
    proof
      assume "q = N"
      with M assms(2) \<open>0 < r\<close> show False by simp
    qed
    with qN have "q + 1 \<le> N" by simp
    moreover have "rne_shift M k \<le> q + 1"
      by (simp add: rne_shift_def q_def [symmetric] r_def [symmetric] Let_def)
    ultimately show ?thesis by simp
  qed
qed

lemma rne_shift_ge:
  assumes "N * 2 ^ k \<le> M"
  shows "N \<le> rne_shift M k"
proof -
  have "(N * 2 ^ k) div 2 ^ k \<le> M div 2 ^ k"
    using assms by (intro zdiv_mono1) simp_all
  then have "N \<le> M div 2 ^ k" by simp
  moreover have "M div 2 ^ k \<le> rne_shift M k"
    by (simp add: rne_shift_def Let_def)
  ultimately show ?thesis by simp
qed

text \<open>The mantissa of a value that needs rounding.\<close>

lemma long_mantissa_bounds:
  assumes "0 < bitlen \<bar>M\<bar> - 53"
  shows "2 ^ (52 + nat (bitlen \<bar>M\<bar> - 53)) \<le> \<bar>M\<bar>"
    and "\<bar>M\<bar> < 2 ^ (53 + nat (bitlen \<bar>M\<bar> - 53))"
proof -
  from assms have "bitlen \<bar>M\<bar> \<noteq> 0" by simp
  then have "\<not> \<bar>M\<bar> \<le> 0" using bitlen_eq_zero_iff [of "\<bar>M\<bar>"] by blast
  then have pos: "0 < \<bar>M\<bar>" by linarith
  from assms have "nat (bitlen \<bar>M\<bar> - 1) = 52 + nat (bitlen \<bar>M\<bar> - 53)"
    and "nat (bitlen \<bar>M\<bar>) = 53 + nat (bitlen \<bar>M\<bar> - 53)"
    by simp_all
  with bitlen_bounds [OF pos]
  show "2 ^ (52 + nat (bitlen \<bar>M\<bar> - 53)) \<le> \<bar>M\<bar>"
    and "\<bar>M\<bar> < 2 ^ (53 + nat (bitlen \<bar>M\<bar> - 53))"
    by simp_all
qed


lemma is_double_round53: "is_double (round53 d)"
proof (cases "bitlen \<bar>fst d\<bar> - 53 \<le> 0")
  case True
  then have "bitlen \<bar>fst d\<bar> \<le> 53" by simp
  then have "\<bar>fst d\<bar> < 2 ^ 53" by (simp add: bitlen_le_iff_power)
  with True show ?thesis by (simp add: round53_def is_double_def)
next
  case False
  define k where "k = nat (bitlen \<bar>fst d\<bar> - 53)"
  define m where "m = rne_shift (fst d) k"
  from False have pos: "0 < bitlen \<bar>fst d\<bar> - 53" by simp
  from long_mantissa_bounds(2) [OF pos] have "\<bar>fst d\<bar> < 2 ^ 53 * 2 ^ k"
    by (simp add: k_def power_add)
  then have up: "fst d \<le> 2 ^ 53 * 2 ^ k" and low: "(- (2 ^ 53)) * 2 ^ k \<le> fst d"
    by simp_all
  from pos have "0 < k" by (simp add: k_def)
  from rne_shift_le [OF this up] rne_shift_ge [OF low]
  have m: "\<bar>m\<bar> \<le> 2 ^ 53" by (simp add: m_def)
  show ?thesis
  proof (cases "\<bar>m\<bar> = 2 ^ 53")
    case True
    then have "m = 2 ^ 53 \<or> m = - (2 ^ 53)" by linarith
    then have "\<bar>m div 2\<bar> < 2 ^ 53" by auto
    with True False show ?thesis
      by (simp add: round53_def is_double_def Let_def m_def k_def)
  next
    case ne: False
    with m have "\<bar>m\<bar> < 2 ^ 53" by simp
    with ne False show ?thesis
      by (simp add: round53_def is_double_def Let_def m_def k_def)
  qed
qed

lemma round53_exact: "is_double d \<Longrightarrow> round53 d = d"
proof -
  assume "is_double d"
  then have "bitlen \<bar>fst d\<bar> \<le> 53"
    by (simp add: is_double_def bitlen_le_iff_power)
  then show ?thesis by (simp add: round53_def)
qed

text \<open>The value of a rounded dyadic: the rounded mantissa at the raised exponent.\<close>

lemma dval_round53:
  assumes "0 < bitlen \<bar>fst x\<bar> - 53"
  shows "dval (round53 x)
           = real_of_int (rne_shift (fst x) (nat (bitlen \<bar>fst x\<bar> - 53)))
             * 2 powi (snd x + (bitlen \<bar>fst x\<bar> - 53))"
proof -
  define k where "k = bitlen \<bar>fst x\<bar> - 53"
  define m where "m = rne_shift (fst x) (nat k)"
  show ?thesis
  proof (cases "\<bar>m\<bar> = 2 ^ 53")
    case True
    then have "m = 2 ^ 53 \<or> m = - (2 ^ 53)" by linarith
    then have even: "m = 2 * (m div 2)" by auto
    have "(2::real) powi (snd x + k + 1) = 2 powi (snd x + k) * 2"
      by (rule power_int_add_1) simp
    then have "real_of_int (m div 2) * 2 powi (snd x + k + 1)
                 = real_of_int (2 * (m div 2)) * 2 powi (snd x + k)"
      by simp
    also have "\<dots> = real_of_int m * 2 powi (snd x + k)"
      using even by simp
    finally show ?thesis
      using True assms by (simp add: round53_def dval_def Let_def m_def k_def)
  next
    case False
    with assms show ?thesis
      by (simp add: round53_def dval_def Let_def m_def k_def)
  qed
qed

text \<open>Rounding does not pass a double: neither upwards nor downwards.\<close>

lemma round53_le_double:
  assumes d: "is_double d" and le: "dval x \<le> dval d"
  shows "dval (round53 x) \<le> dval d"
proof (cases "bitlen \<bar>fst x\<bar> - 53 \<le> 0")
  case True
  with le show ?thesis by (simp add: round53_def)
next
  case False
  define k where "k = bitlen \<bar>fst x\<bar> - 53"
  define K where "K = nat k"
  define M where "M = fst x"
  define E where "E = snd x"
  define m' where "m' = rne_shift M K"
  define u :: real where "u = 2 powi (E + k)"
  from False have pos: "0 < bitlen \<bar>fst x\<bar> - 53" by simp
  then have kpos: "0 < k" and K: "0 < K" "int K = k" by (simp_all add: k_def K_def)
  have u: "0 < u" by (simp add: u_def)
  have rx: "dval (round53 x) = real_of_int m' * u"
    using dval_round53 [OF pos] by (simp add: m'_def M_def K_def k_def u_def E_def)
  have uE: "u = 2 ^ K * 2 powi E"
    using two_powi_shift [of E "E + k"] kpos by (simp add: u_def K_def)
  have x: "dval x = real_of_int M * 2 powi E" by (simp add: dval_def M_def E_def)
  from long_mantissa_bounds(1) [OF pos]
  have big: "2 ^ 52 * 2 ^ K \<le> \<bar>M\<bar>" by (simp add: M_def K_def k_def power_add)
  show ?thesis
  proof (cases "E + k \<le> snd d")
    case True
    define N where "N = fst d * 2 ^ nat (snd d - (E + k))"
    have dv: "dval d = real_of_int N * u"
      using dval_scaled [OF True] by (simp add: N_def u_def)
    from le have "real_of_int M * 2 powi E \<le> real_of_int (N * 2 ^ K) * 2 powi E"
      by (simp add: x dv uE mult.assoc)
    then have "real_of_int M \<le> real_of_int (N * 2 ^ K)"
      by (simp only: mult_le_cancel_right_pos [OF two_powi_pos])
    then have "M \<le> N * 2 ^ K" by (simp only: of_int_le_iff)
    from rne_shift_le [OF K(1) this] have "m' \<le> N" by (simp add: m'_def)
    then have "real_of_int m' * u \<le> real_of_int N * u"
      using u by simp
    then show ?thesis by (simp add: rx dv)
  next
    case small: False
    then have "snd d \<le> E + k - 1" by simp
    then have "(2::real) powi snd d \<le> 2 powi (E + k - 1)"
      by (intro power_int_increasing) simp_all
    moreover have "(2::real) powi (E + k - 1) * 2 = 2 powi (E + k)"
      by (rule power_int_minus_mult) simp
    ultimately have p: "(2::real) powi snd d * 2 \<le> u" by (simp add: u_def)
    from d have "real_of_int \<bar>fst d\<bar> < 2 ^ 53"
      unfolding is_double_def by (metis of_int_less_iff of_int_numeral of_int_power)
    then have md: "\<bar>real_of_int (fst d)\<bar> < 2 ^ 53" by simp
    have "\<bar>dval d\<bar> = \<bar>real_of_int (fst d)\<bar> * 2 powi snd d"
      by (simp add: dval_def abs_mult)
    also have "\<dots> < 2 ^ 53 * 2 powi snd d"
      using md by simp
    also have "\<dots> = 2 ^ 52 * (2 powi snd d * 2)" by simp
    also have "\<dots> \<le> 2 ^ 52 * u" using p by simp
    finally have dsmall: "\<bar>dval d\<bar> < 2 ^ 52 * u" .
    show ?thesis
    proof (cases "0 < M")
      case True
      with big have "2 ^ 52 * 2 ^ K \<le> M" by simp
      then have "real_of_int (2 ^ 52 * 2 ^ K) \<le> real_of_int M" by (simp only: of_int_le_iff)
      then have "real_of_int (2 ^ 52 * 2 ^ K) * 2 powi E \<le> real_of_int M * 2 powi E"
        by (simp only: mult_le_cancel_right_pos [OF two_powi_pos])
      then have "2 ^ 52 * u \<le> dval x" by (simp add: x uE mult.assoc)
      with le dsmall show ?thesis by simp
    next
      case False
      with big have "M \<le> (- (2 ^ 52)) * 2 ^ K" by simp
      from rne_shift_le [OF K(1) this] have "m' \<le> - (2 ^ 52)" by (simp add: m'_def)
      then have "real_of_int m' \<le> real_of_int (- (2 ^ 52))" by (simp only: of_int_le_iff)
      then have "real_of_int m' * u \<le> real_of_int (- (2 ^ 52)) * u"
        using u by (intro mult_right_mono) simp_all
      then have "real_of_int m' * u \<le> - (2 ^ 52) * u" by simp
      with dsmall show ?thesis by (simp add: rx)
    qed
  qed
qed

lemma round53_ge_double:
  assumes d: "is_double d" and le: "dval d \<le> dval x"
  shows "dval d \<le> dval (round53 x)"
proof (cases "bitlen \<bar>fst x\<bar> - 53 \<le> 0")
  case True
  with le show ?thesis by (simp add: round53_def)
next
  case False
  define k where "k = bitlen \<bar>fst x\<bar> - 53"
  define K where "K = nat k"
  define M where "M = fst x"
  define E where "E = snd x"
  define m' where "m' = rne_shift M K"
  define u :: real where "u = 2 powi (E + k)"
  from False have pos: "0 < bitlen \<bar>fst x\<bar> - 53" by simp
  then have kpos: "0 < k" and K: "0 < K" "int K = k" by (simp_all add: k_def K_def)
  have u: "0 < u" by (simp add: u_def)
  have rx: "dval (round53 x) = real_of_int m' * u"
    using dval_round53 [OF pos] by (simp add: m'_def M_def K_def k_def u_def E_def)
  have uE: "u = 2 ^ K * 2 powi E"
    using two_powi_shift [of E "E + k"] kpos by (simp add: u_def K_def)
  have x: "dval x = real_of_int M * 2 powi E" by (simp add: dval_def M_def E_def)
  from long_mantissa_bounds(1) [OF pos]
  have big: "2 ^ 52 * 2 ^ K \<le> \<bar>M\<bar>" by (simp add: M_def K_def k_def power_add)
  show ?thesis
  proof (cases "E + k \<le> snd d")
    case True
    define N where "N = fst d * 2 ^ nat (snd d - (E + k))"
    have dv: "dval d = real_of_int N * u"
      using dval_scaled [OF True] by (simp add: N_def u_def)
    from le have "real_of_int (N * 2 ^ K) * 2 powi E \<le> real_of_int M * 2 powi E"
      by (simp add: x dv uE mult.assoc)
    then have "real_of_int (N * 2 ^ K) \<le> real_of_int M"
      by (simp only: mult_le_cancel_right_pos [OF two_powi_pos])
    then have "N * 2 ^ K \<le> M" by (simp only: of_int_le_iff)
    from rne_shift_ge [OF this] have "N \<le> m'" by (simp add: m'_def)
    then have "real_of_int N * u \<le> real_of_int m' * u"
      using u by simp
    then show ?thesis by (simp add: rx dv)
  next
    case small: False
    then have "snd d \<le> E + k - 1" by simp
    then have "(2::real) powi snd d \<le> 2 powi (E + k - 1)"
      by (intro power_int_increasing) simp_all
    moreover have "(2::real) powi (E + k - 1) * 2 = 2 powi (E + k)"
      by (rule power_int_minus_mult) simp
    ultimately have p: "(2::real) powi snd d * 2 \<le> u" by (simp add: u_def)
    from d have "real_of_int \<bar>fst d\<bar> < 2 ^ 53"
      unfolding is_double_def by (metis of_int_less_iff of_int_numeral of_int_power)
    then have md: "\<bar>real_of_int (fst d)\<bar> < 2 ^ 53" by simp
    have "\<bar>dval d\<bar> = \<bar>real_of_int (fst d)\<bar> * 2 powi snd d"
      by (simp add: dval_def abs_mult)
    also have "\<dots> < 2 ^ 53 * 2 powi snd d"
      using md by simp
    also have "\<dots> = 2 ^ 52 * (2 powi snd d * 2)" by simp
    also have "\<dots> \<le> 2 ^ 52 * u" using p by simp
    finally have dsmall: "\<bar>dval d\<bar> < 2 ^ 52 * u" .
    show ?thesis
    proof (cases "0 < M")
      case True
      with big have "2 ^ 52 * 2 ^ K \<le> M" by simp
      from rne_shift_ge [OF this] have "2 ^ 52 \<le> m'" by (simp add: m'_def)
      then have "real_of_int (2 ^ 52) \<le> real_of_int m'" by (simp only: of_int_le_iff)
      then have "real_of_int (2 ^ 52) * u \<le> real_of_int m' * u"
        using u by (intro mult_right_mono) simp_all
      then have "2 ^ 52 * u \<le> real_of_int m' * u" by simp
      with dsmall show ?thesis by (simp add: rx)
    next
      case False
      with big have "M \<le> (- (2 ^ 52)) * 2 ^ K" by simp
      then have "real_of_int M \<le> real_of_int ((- (2 ^ 52)) * 2 ^ K)" by (simp only: of_int_le_iff)
      then have "real_of_int M * 2 powi E \<le> real_of_int ((- (2 ^ 52)) * 2 ^ K) * 2 powi E"
        by (simp only: mult_le_cancel_right_pos [OF two_powi_pos])
      then have "dval x \<le> - (2 ^ 52 * u)" by (simp add: x uE mult.assoc)
      with le dsmall show ?thesis by simp
    qed
  qed
qed

lemma dval_double_of_int: "\<bar>i\<bar> < 2 ^ 53 \<Longrightarrow> dval (double_of_int i) = real_of_int i"
  by (simp add: double_of_int_def round53_exact is_double_def dval_def)

lemma dadd_exact:
  "is_double (exact_add a b) \<Longrightarrow> dval (dadd a b) = dval a + dval b"
  by (simp add: dadd_def round53_exact dval_exact_add)

section \<open>The refresh cache\<close>

subsection \<open>The three outcomes of one call\<close>

lemma cache_hit_iff:
  "cache_hit self start_date end_date now \<longleftrightarrow>
     cache_range self = (Some start_date, Some end_date) \<and> dval now < dval (cache_until self)"
  by (cases "cache_range self") (auto simp: cache_hit_def dless_iff)

lemma get_lessons_hit:
  "cache_hit self start_date end_date now \<Longrightarrow>
   get_lessons Client self n start_date end_date now = (Inr (cache_lessons self), self, n)"
  by (simp add: get_lessons_def)

lemma get_lessons_miss_fail:
  "\<not> cache_hit self start_date end_date now \<Longrightarrow>
   fetch_lessons Client n self start_date end_date = Inl e \<Longrightarrow>
   get_lessons Client self n start_date end_date now = (Inl e, self, Suc n)"
  by (simp add: get_lessons_def)

lemma get_lessons_miss_ok:
  "\<not> cache_hit self start_date end_date now \<Longrightarrow>
   fetch_lessons Client n self start_date end_date = Inr ls \<Longrightarrow>
   get_lessons Client self n start_date end_date now =
     (Inr ls,
      self\<lparr>cache_lessons := ls, cache_range := (Some start_date, Some end_date),
           cache_until := dadd now (double_of_int (cache_ttl self))\<rparr>,
      Suc n)"
  by (simp add: get_lessons_def)

text \<open>What a successful fetching call leaves behind.\<close>

lemma get_lessons_stored:
  assumes "get_lessons Client self n start_date end_date now = (Inr ls, self1, Suc n)"
  shows "self1 = self\<lparr>cache_lessons := ls, cache_range := (Some start_date, Some end_date),
                       cache_until := dadd now (double_of_int (cache_ttl self))\<rparr>"
proof (cases "cache_hit self start_date end_date now")
  case True
  with assms show ?thesis by (simp add: get_lessons_hit)
next
  case False
  with assms show ?thesis by (auto simp: get_lessons_def split: sum.splits)
qed

subsection \<open>The stored expiry and the exact sum\<close>

text \<open>
  The expiry \<^verbatim>\<open>now + self.cache_ttl\<close> is the exact sum when that is a double. In any
  case no double lies strictly between the two, and with a time to live that is not
  negative the expiry is not before \<open>now\<close>.
\<close>

lemma expiry_exact:
  "is_double (exact_add now (double_of_int ttl)) \<Longrightarrow>
   dval (dadd now (double_of_int ttl)) = dval now + dval (double_of_int ttl)"
  by (rule dadd_exact)

lemma expiry_not_below_double:
  "is_double d \<Longrightarrow> dval d \<le> dval now + dval (double_of_int ttl) \<Longrightarrow>
   dval d \<le> dval (dadd now (double_of_int ttl))"
  unfolding dadd_def by (rule round53_ge_double) (simp_all add: dval_exact_add)

lemma expiry_not_above_double:
  "is_double d \<Longrightarrow> dval now + dval (double_of_int ttl) \<le> dval d \<Longrightarrow>
   dval (dadd now (double_of_int ttl)) \<le> dval d"
  unfolding dadd_def by (rule round53_le_double) (simp_all add: dval_exact_add)

lemma dval_double_of_int_nonneg: "0 \<le> i \<Longrightarrow> 0 \<le> dval (double_of_int i)"
proof -
  assume "0 \<le> i"
  have zero: "is_double (0, 0)" by (simp add: is_double_def)
  have "dval (0, 0) \<le> dval (round53 (i, 0))"
    using zero by (rule round53_ge_double) (simp add: dval_def \<open>0 \<le> i\<close>)
  then show ?thesis by (simp add: double_of_int_def dval_def)
qed

lemma expiry_not_before_now:
  "is_double now \<Longrightarrow> 0 \<le> ttl \<Longrightarrow> dval now \<le> dval (dadd now (double_of_int ttl))"
  using dval_double_of_int_nonneg [of ttl] by (intro expiry_not_below_double) simp_all

subsection \<open>The example backend, evaluated\<close>

lemma strip_empty: "strip [] = []"
  by (simp add: strip_def lstrip_chars.simps white_space_def)

lemma demo_backend_fields:
  "cache_until demo_backend = (0, 0)" "cache_range demo_backend = (None, None)"
  "cache_lessons demo_backend = []" "cache_ttl demo_backend = 120"
  "ent_name demo_backend = []"
  by (simp_all add: demo_backend_def new_backend_def strip_empty)

lemma warm_backend_fields:
  "cache_until warm_backend = (1120, 0)"
  "cache_range warm_backend = (Some window_start, Some window_end)"
  "cache_lessons warm_backend = [math_lesson]" "cache_ttl warm_backend = 120"
  "ent_name warm_backend = []"
  by (simp_all add: warm_backend_def demo_backend_fields)

lemma early_backend_fields:
  "cache_until early_backend = clock_120_tenth"
  "cache_range early_backend = (Some window_start, Some window_end)"
  "cache_lessons early_backend = [math_lesson]" "cache_ttl early_backend = 120"
  "ent_name early_backend = []"
  by (simp_all add: early_backend_def demo_backend_fields)

lemma fetch_changing:
  "ent_name self = [] \<Longrightarrow>
   fetch_lessons changing_upstream n self sd ed = Inr (if n = 0 then [math_lesson] else [])"
  by (simp add: fetch_lessons_def login_def changing_upstream_def)

lemma fetch_failing:
  "ent_name self = [] \<Longrightarrow>
   fetch_lessons failing_upstream n self sd ed = Inl (UpstreamError ''connection refused'')"
  by (simp add: fetch_lessons_def login_def failing_upstream_def)

text \<open>The sums of the examples, as the machine computes them.\<close>

lemma sum_1000_120: "dadd (1000, 0) (double_of_int 120) = (1120, 0)"
  by (simp add: dadd_def double_of_int_def round53_def exact_add_def compute_bitlen)

lemma sum_1130_120: "dadd (1130, 0) (double_of_int 120) = (1250, 0)"
  by (simp add: dadd_def double_of_int_def round53_def exact_add_def compute_bitlen)

lemma sum_tenth_120: "dadd clock_tenth (double_of_int 120) = clock_120_tenth"
  by (simp add: dadd_def double_of_int_def round53_def exact_add_def rne_shift_def
      clock_tenth_def clock_120_tenth_def compute_bitlen)

lemma sum_120_tenth_120:
  "dadd clock_120_tenth (double_of_int 120) = (8447767738528563, - 45)"
  by (simp add: dadd_def double_of_int_def round53_def exact_add_def rne_shift_def
      clock_120_tenth_def compute_bitlen)

lemma dval_int [simp]: "dval (i, 0) = real_of_int i"
  by (simp add: dval_def)

lemma tenth_before_120_tenth: "dval clock_tenth < dval clock_120_tenth"
proof -
  have "dless clock_tenth clock_120_tenth"
    by (simp add: dless_def clock_tenth_def clock_120_tenth_def)
  then show ?thesis by (simp only: dless_iff)
qed

text \<open>The double \<^verbatim>\<open>120.1\<close> is below the exact sum of the double \<^verbatim>\<open>0.1\<close> and 120.\<close>

lemma sum_tenth_120_rounded_down: "dval clock_120_tenth < dval clock_tenth + real_of_int 120"
proof -
  have "dless clock_120_tenth (exact_add clock_tenth (120, 0))"
    by (simp add: dless_def exact_add_def clock_tenth_def clock_120_tenth_def)
  then show ?thesis by (simp add: dless_iff dval_exact_add)
qed

lemma early_backend_expiry:
  "dval (cache_until early_backend) < dval clock_tenth + real_of_int 120"
  unfolding early_backend_fields by (rule sum_tenth_120_rounded_down)

lemma demo_first_fetch:
  "get_lessons changing_upstream demo_backend 0 window_start window_end (1000, 0)
     = (Inr [math_lesson], warm_backend, Suc 0)"
proof -
  have "\<not> cache_hit demo_backend window_start window_end (1000, 0)"
    by (simp add: cache_hit_iff demo_backend_fields)
  moreover have "fetch_lessons changing_upstream 0 demo_backend window_start window_end
                   = Inr [math_lesson]"
    by (simp add: fetch_changing demo_backend_fields)
  ultimately have "get_lessons changing_upstream demo_backend 0 window_start window_end (1000, 0)
     = (Inr [math_lesson],
        demo_backend\<lparr>cache_lessons := [math_lesson],
                     cache_range := (Some window_start, Some window_end),
                     cache_until := dadd (1000, 0) (double_of_int (cache_ttl demo_backend))\<rparr>,
        Suc 0)"
    by (rule get_lessons_miss_ok)
  then show ?thesis by (simp only: warm_backend_def demo_backend_fields sum_1000_120)
qed

lemma demo_run_one:
  "run changing_upstream (initial demo_backend) [(window_start, window_end, (1000, 0))]
     = (warm_backend, Suc 0, Some (1000, 0))"
proof -
  have "\<not> cache_hit demo_backend window_start window_end (1000, 0)"
    by (simp add: cache_hit_iff demo_backend_fields)
  then have step:
    "request_step changing_upstream (demo_backend, 0, None) (window_start, window_end, (1000, 0))
       = (warm_backend, Suc 0, Some (1000, 0))"
    by (simp add: demo_first_fetch)
  show ?thesis unfolding initial_def run.simps by (rule step)
qed

lemma early_first_fetch:
  "get_lessons changing_upstream demo_backend 0 window_start window_end clock_tenth
     = (Inr [math_lesson], early_backend, Suc 0)"
proof -
  have "\<not> cache_hit demo_backend window_start window_end clock_tenth"
    by (simp add: cache_hit_def dless_def demo_backend_fields clock_tenth_def)
  moreover have "fetch_lessons changing_upstream 0 demo_backend window_start window_end
                   = Inr [math_lesson]"
    by (simp add: fetch_changing demo_backend_fields)
  ultimately have "get_lessons changing_upstream demo_backend 0 window_start window_end clock_tenth
     = (Inr [math_lesson],
        demo_backend\<lparr>cache_lessons := [math_lesson],
                     cache_range := (Some window_start, Some window_end),
                     cache_until := dadd clock_tenth (double_of_int (cache_ttl demo_backend))\<rparr>,
        Suc 0)"
    by (rule get_lessons_miss_ok)
  then show ?thesis by (simp only: early_backend_def demo_backend_fields sum_tenth_120)
qed

lemma early_run_one:
  "run changing_upstream (initial demo_backend) [(window_start, window_end, clock_tenth)]
     = (early_backend, Suc 0, Some clock_tenth)"
proof -
  have "\<not> cache_hit demo_backend window_start window_end clock_tenth"
    by (simp add: cache_hit_def dless_def demo_backend_fields clock_tenth_def)
  then have step:
    "request_step changing_upstream (demo_backend, 0, None) (window_start, window_end, clock_tenth)
       = (early_backend, Suc 0, Some clock_tenth)"
    by (simp add: early_first_fetch)
  show ?thesis unfolding initial_def run.simps by (rule step)
qed

lemma warm_hit_1060:
  "get_lessons changing_upstream warm_backend (Suc 0) window_start window_end (1060, 0)
     = (Inr [math_lesson], warm_backend, Suc 0)"
  by (simp add: get_lessons_def cache_hit_iff warm_backend_fields)

lemma warm_miss_1130:
  "get_lessons changing_upstream warm_backend (Suc 0) window_start window_end (1130, 0)
     = (Inr [], warm_backend\<lparr>cache_lessons := [], cache_until := (1250, 0)\<rparr>, Suc (Suc 0))"
proof -
  have "\<not> cache_hit warm_backend window_start window_end (1130, 0)"
    by (simp add: cache_hit_iff warm_backend_fields)
  moreover have "fetch_lessons changing_upstream (Suc 0) warm_backend window_start window_end
                   = Inr []"
    by (simp add: fetch_changing warm_backend_fields)
  ultimately have
    "get_lessons changing_upstream warm_backend (Suc 0) window_start window_end (1130, 0)
     = (Inr [],
        warm_backend\<lparr>cache_lessons := [],
                     cache_range := (Some window_start, Some window_end),
                     cache_until := dadd (1130, 0) (double_of_int (cache_ttl warm_backend))\<rparr>,
        Suc (Suc 0))"
    by (rule get_lessons_miss_ok)
  then show ?thesis
    by (simp add: warm_backend_fields sum_1130_120)
qed

lemma early_miss_at_expiry:
  "get_lessons changing_upstream early_backend (Suc 0) window_start window_end clock_120_tenth
     = (Inr [], early_backend\<lparr>cache_lessons := [], cache_until := (8447767738528563, - 45)\<rparr>,
        Suc (Suc 0))"
proof -
  have "\<not> cache_hit early_backend window_start window_end clock_120_tenth"
    by (simp add: cache_hit_iff early_backend_fields)
  moreover have "fetch_lessons changing_upstream (Suc 0) early_backend window_start window_end
                   = Inr []"
    by (simp add: fetch_changing early_backend_fields)
  ultimately have
    "get_lessons changing_upstream early_backend (Suc 0) window_start window_end clock_120_tenth
     = (Inr [],
        early_backend\<lparr>cache_lessons := [],
                      cache_range := (Some window_start, Some window_end),
                      cache_until := dadd clock_120_tenth (double_of_int (cache_ttl early_backend))\<rparr>,
        Suc (Suc 0))"
    by (rule get_lessons_miss_ok)
  then show ?thesis
    by (simp add: early_backend_fields sum_120_tenth_120)
qed

subsection \<open>A hit reads and writes nothing\<close>

text \<open>
  Claim C10. When the requested window equals the stored one and the clock is before
  \<open>cache_until\<close>, the call returns the stored lessons, makes no upstream fetch, and
  leaves the whole backend as it was: the stored window, the stored lessons and the
  expiry time are unchanged, so a read never extends the expiry.
\<close>

theorem cache_hit_read_only:
  assumes "cache_range self = (Some start_date, Some end_date)"
    and "dval now < dval (cache_until self)"
  shows "get_lessons Client self n start_date end_date now
           = (Inr (cache_lessons self), self, n)"
proof -
  from assms have "cache_hit self start_date end_date now"
    by (simp add: cache_hit_iff)
  then show ?thesis by (rule get_lessons_hit)
qed

theorem cache_hit_read_only_witness:
  "cache_range warm_backend = (Some window_start, Some window_end)
   \<and> dval (1060, 0) < dval (cache_until warm_backend)
   \<and> get_lessons changing_upstream warm_backend (Suc 0) window_start window_end (1060, 0)
       = (Inr (cache_lessons warm_backend), warm_backend, Suc 0)"
proof -
  have window: "cache_range warm_backend = (Some window_start, Some window_end)"
    by (simp add: warm_backend_fields)
  have early: "dval (1060, 0) < dval (cache_until warm_backend)"
    by (simp add: warm_backend_fields)
  from cache_hit_read_only [OF window early, of changing_upstream "Suc 0"] window early
  show ?thesis by blast
qed

subsection \<open>A failed fetch changes nothing\<close>

text \<open>
  Claim C3. When the call misses and the upstream fetch raises, the caller receives
  that very exception and the backend afterwards is the backend before: window,
  lessons and expiry are untouched. More generally, whenever a call ends in an
  exception the backend is unchanged.
\<close>

theorem fetch_failure_keeps_state:
  "(\<not> cache_hit self start_date end_date now
      \<and> fetch_lessons Client n self start_date end_date = Inl e \<longrightarrow>
      get_lessons Client self n start_date end_date now = (Inl e, self, Suc n))
   \<and> (fst (get_lessons Client self n start_date end_date now) = Inl e \<longrightarrow>
      fst (snd (get_lessons Client self n start_date end_date now)) = self)"
  by (auto simp: get_lessons_def split: sum.splits)

theorem fetch_failure_keeps_state_witness:
  "\<not> cache_hit warm_backend window_start window_end (1120, 0)
   \<and> fetch_lessons failing_upstream (Suc 0) warm_backend window_start window_end
       = Inl (UpstreamError ''connection refused'')
   \<and> get_lessons failing_upstream warm_backend (Suc 0) window_start window_end (1120, 0)
       = (Inl (UpstreamError ''connection refused''), warm_backend, Suc (Suc 0))"
proof -
  have miss: "\<not> cache_hit warm_backend window_start window_end (1120, 0)"
    by (simp add: cache_hit_iff warm_backend_fields)
  have fails: "fetch_lessons failing_upstream (Suc 0) warm_backend window_start window_end
                 = Inl (UpstreamError ''connection refused'')"
    by (simp add: fetch_failing warm_backend_fields)
  from fetch_failure_keeps_state [of warm_backend window_start window_end "(1120, 0)"
         failing_upstream "Suc 0" "UpstreamError ''connection refused''"] miss fails
  show ?thesis by blast
qed

subsection \<open>A hit after a fetch\<close>

lemma request_step_hit:
  "cache_hit self sd ed now \<Longrightarrow> request_step Client (self, n, c) (sd, ed, now) = (self, n, c)"
  by (simp add: get_lessons_hit)

lemma run_all_hits:
  "\<forall>rq\<in>set rqs. cache_hit self (fst rq) (fst (snd rq)) (snd (snd rq)) \<Longrightarrow>
   run Client (self, n, c) rqs = (self, n, c)"
proof (induction rqs)
  case Nil
  show ?case by simp
next
  case (Cons rq rqs)
  obtain sd ed now where rq: "rq = (sd, ed, now)" by (cases rq) auto
  from Cons.prems rq have "cache_hit self sd ed now" by simp
  then have "request_step Client (self, n, c) rq = (self, n, c)"
    unfolding rq by (rule request_step_hit)
  with Cons show ?case by simp
qed

text \<open>
  Claim C1, as it is written, does not hold: the expiry that the first call stores is
  the sum \<open>t1 + ttl\<close> as the machine rounds it, and that can be below the exact sum. A
  new backend with a time to live of 120 is asked at clock reading \<open>t1\<close>, the double
  \<^verbatim>\<open>0.1\<close>; the call fetches and stores the Math lesson with the expiry \<^verbatim>\<open>0.1 + 120\<close>,
  which is the double \<^verbatim>\<open>120.1\<close>. That double is less than the exact sum of the double
  \<^verbatim>\<open>0.1\<close> and 120. So the call at \<open>t2\<close>, the double \<^verbatim>\<open>120.1\<close>, has \<open>t1 < t2 < t1 + 120\<close>
  and the same window, yet it is not before the expiry: it fetches again (the counter
  goes from 1 to 2) and returns the new answer of the upstream, not the stored lessons.
\<close>

theorem cache_hit_rounding_counterexample:
  "get_lessons changing_upstream demo_backend 0 window_start window_end clock_tenth
     = (Inr [math_lesson], early_backend, Suc 0)
   \<and> cache_ttl demo_backend = 120
   \<and> dval clock_tenth < dval clock_120_tenth
   \<and> dval clock_120_tenth < dval clock_tenth + real_of_int 120
   \<and> get_lessons changing_upstream early_backend (Suc 0) window_start window_end clock_120_tenth
       = (Inr [], early_backend\<lparr>cache_lessons := [], cache_until := (8447767738528563, - 45)\<rparr>,
          Suc (Suc 0))
   \<and> Inr [] \<noteq> (Inr [math_lesson] :: exn + lesson list)"
  by (intro conjI early_first_fetch tenth_before_120_tenth sum_tenth_120_rounded_down
      early_miss_at_expiry)
     (simp_all add: demo_backend_fields)

text \<open>
  Claim C1, amended: the bound on \<open>t2\<close> is the expiry that the first call stored. Let
  the call at \<open>t1\<close> fetch with success and leave the backend \<open>self1\<close>. Its expiry
  \<open>cache_until self1\<close> is the machine's sum of \<open>t1\<close> and the time to live; it is the
  exact sum \<open>t1 + ttl\<close> whenever that is a double, and in any case every clock reading
  before the exact sum is before the expiry or is the expiry itself. Then, with
  \<open>t1 < t2 < cache_until self1\<close>, whatever requests for the same window run in between
  before that expiry change neither the backend nor the fetch counter, and the call at
  \<open>t2\<close> returns exactly the lessons the first call stored, without a fetch.
\<close>

theorem cache_hit_before_expiry:
  assumes first: "get_lessons Client self n start_date end_date t1 = (Inr ls, self1, Suc n)"
    and between: "\<forall>rq\<in>set rqs. fst rq = start_date \<and> fst (snd rq) = end_date
                    \<and> dval (snd (snd rq)) < dval (cache_until self1)"
    and t2: "dval t1 < dval t2" "dval t2 < dval (cache_until self1)"
  shows "cache_until self1 = dadd t1 (double_of_int (cache_ttl self))
         \<and> (is_double (exact_add t1 (double_of_int (cache_ttl self))) \<longrightarrow>
              dval (cache_until self1) = dval t1 + dval (double_of_int (cache_ttl self)))
         \<and> (\<bar>cache_ttl self\<bar> < 2 ^ 53 \<longrightarrow>
              dval (double_of_int (cache_ttl self)) = real_of_int (cache_ttl self))
         \<and> (\<forall>t. is_double t \<and> dval t < dval t1 + dval (double_of_int (cache_ttl self)) \<longrightarrow>
              dval t \<le> dval (cache_until self1))
         \<and> run Client (self1, Suc n, c) rqs = (self1, Suc n, c)
         \<and> cache_lessons self1 = ls
         \<and> get_lessons Client self1 (Suc n) start_date end_date t2 = (Inr ls, self1, Suc n)"
proof -
  from get_lessons_stored [OF first]
  have stored: "cache_range self1 = (Some start_date, Some end_date)" "cache_lessons self1 = ls"
    and until: "cache_until self1 = dadd t1 (double_of_int (cache_ttl self))"
    by simp_all
  have exact: "dval (cache_until self1) = dval t1 + dval (double_of_int (cache_ttl self))"
    if "is_double (exact_add t1 (double_of_int (cache_ttl self)))"
    unfolding until using that by (rule expiry_exact)
  have ttl: "dval (double_of_int (cache_ttl self)) = real_of_int (cache_ttl self)"
    if "\<bar>cache_ttl self\<bar> < 2 ^ 53"
    using that by (rule dval_double_of_int)
  have near: "dval t \<le> dval (cache_until self1)"
    if "is_double t \<and> dval t < dval t1 + dval (double_of_int (cache_ttl self))" for t
    unfolding until using that by (intro expiry_not_below_double) simp_all
  have hit: "cache_hit self1 start_date end_date t" if "dval t < dval (cache_until self1)" for t
    using that stored by (simp add: cache_hit_iff)
  have "\<forall>rq\<in>set rqs. cache_hit self1 (fst rq) (fst (snd rq)) (snd (snd rq))"
    using between hit by auto
  then have run: "run Client (self1, Suc n, c) rqs = (self1, Suc n, c)"
    by (rule run_all_hits)
  from t2 have "cache_hit self1 start_date end_date t2" by (simp add: hit)
  then have "get_lessons Client self1 (Suc n) start_date end_date t2 = (Inr ls, self1, Suc n)"
    using stored by (simp add: get_lessons_hit)
  with until exact ttl near run stored show ?thesis by blast
qed

theorem cache_hit_before_expiry_witness:
  "get_lessons changing_upstream demo_backend 0 window_start window_end (1000, 0)
     = (Inr [math_lesson], warm_backend, Suc 0)
   \<and> dval (1000, 0) < dval (1119, 0) \<and> dval (1119, 0) < dval (cache_until warm_backend)
   \<and> cache_until warm_backend = dadd (1000, 0) (double_of_int (cache_ttl demo_backend))
   \<and> dval (cache_until warm_backend) = 1000 + 120
   \<and> run changing_upstream (warm_backend, Suc 0, Some (1000, 0))
        [(window_start, window_end, (1030, 0)), (window_start, window_end, (1060, 0))]
      = (warm_backend, Suc 0, Some (1000, 0))
   \<and> get_lessons changing_upstream warm_backend (Suc 0) window_start window_end (1119, 0)
       = (Inr [math_lesson], warm_backend, Suc 0)"
proof -
  have between:
    "\<forall>rq\<in>set [(window_start, window_end, (1030, 0)), (window_start, window_end, (1060, 0))].
       fst rq = window_start \<and> fst (snd rq) = window_end
       \<and> dval (snd (snd rq)) < dval (cache_until warm_backend)"
    by (simp add: warm_backend_fields)
  have t2: "dval (1000, 0) < dval (1119, 0)" "dval (1119, 0) < dval (cache_until warm_backend)"
    by (simp_all add: warm_backend_fields)
  have sum: "dval (cache_until warm_backend) = 1000 + 120"
    by (simp add: warm_backend_fields)
  note inst = cache_hit_before_expiry [OF demo_first_fetch between t2, of "Some (1000, 0)"]
  from inst have "cache_until warm_backend = dadd (1000, 0) (double_of_int (cache_ttl demo_backend))"
    by blast
  moreover from inst
  have "run changing_upstream (warm_backend, Suc 0, Some (1000, 0))
        [(window_start, window_end, (1030, 0)), (window_start, window_end, (1060, 0))]
      = (warm_backend, Suc 0, Some (1000, 0))"
    by blast
  moreover from inst
  have "get_lessons changing_upstream warm_backend (Suc 0) window_start window_end (1119, 0)
       = (Inr [math_lesson], warm_backend, Suc 0)"
    by blast
  ultimately show ?thesis using demo_first_fetch t2 sum by blast
qed

subsection \<open>A miss fetches once and replaces the cached result\<close>

lemma expiry_inv_initial: "expiry_inv ttl (initial (new_backend u us p e tz ttl))"
  by (simp add: expiry_inv_def initial_def new_backend_def)

lemma expiry_inv_step: "expiry_inv ttl st \<Longrightarrow> expiry_inv ttl (request_step Client st rq)"
proof -
  assume inv: "expiry_inv ttl st"
  obtain self n c where st: "st = (self, n, c)" by (cases st) auto
  obtain sd ed now where rq: "rq = (sd, ed, now)" by (cases rq) auto
  from inv show ?thesis
    unfolding st rq
    by (auto simp: expiry_inv_def get_lessons_def split: sum.splits option.splits)
qed

lemma expiry_inv_run: "expiry_inv ttl st \<Longrightarrow> expiry_inv ttl (run Client st rqs)"
  by (induction rqs arbitrary: st) (simp_all add: expiry_inv_step)

lemma created_by_initial: "created_by T (initial self)"
  by (simp add: created_by_def initial_def)

lemma created_by_step:
  assumes "created_by T st" and "dval (snd (snd rq)) \<le> T"
  shows "created_by T (request_step Client st rq)"
proof -
  obtain self n c where st: "st = (self, n, c)" by (cases st) auto
  obtain sd ed now where rq: "rq = (sd, ed, now)" by (cases rq) auto
  from assms show ?thesis
    unfolding st rq
    by (auto simp: created_by_def split: prod.splits option.splits)
qed

lemma created_by_run:
  "created_by T st \<Longrightarrow> \<forall>rq\<in>set rqs. dval (snd (snd rq)) \<le> T \<Longrightarrow>
   created_by T (run Client st rqs)"
  by (induction rqs arbitrary: st) (simp_all add: created_by_step)

text \<open>
  After a run from a new backend whose requests all ran at or before \<open>t1\<close>, a clock
  reading after \<open>t1 + ttl\<close> is not before the expiry.
\<close>

lemma run_expired:
  assumes run: "run Client (initial (new_backend u us p e tz ttl)) rqs = (self1, n1, c1)"
    and times: "\<forall>rq\<in>set rqs. dval (snd (snd rq)) \<le> dval t1"
    and now2: "is_double now2" "dval t1 + dval (double_of_int ttl) \<le> dval now2"
  shows "\<not> cache_hit self1 start_date end_date now2"
proof (cases c1)
  case None
  have "expiry_inv ttl (run Client (initial (new_backend u us p e tz ttl)) rqs)"
    by (rule expiry_inv_run) (rule expiry_inv_initial)
  with run None have "cache_range self1 = (None, None)"
    by (simp add: expiry_inv_def)
  then show ?thesis by (simp add: cache_hit_iff)
next
  case (Some t)
  have "expiry_inv ttl (run Client (initial (new_backend u us p e tz ttl)) rqs)"
    by (rule expiry_inv_run) (rule expiry_inv_initial)
  with run Some have until: "cache_until self1 = dadd t (double_of_int ttl)"
    by (simp add: expiry_inv_def)
  have "created_by (dval t1) (run Client (initial (new_backend u us p e tz ttl)) rqs)"
    using created_by_initial times by (rule created_by_run)
  with run Some have "dval t \<le> dval t1" by (simp add: created_by_def)
  with now2 have "dval t + dval (double_of_int ttl) \<le> dval now2" by simp
  with now2(1) have "dval (dadd t (double_of_int ttl)) \<le> dval now2"
    by (rule expiry_not_above_double)
  then show ?thesis by (simp add: cache_hit_iff until)
qed

text \<open>
  Claim C2. When the requested window differs from the stored one, or the clock has
  reached \<open>cache_until\<close>, the call makes exactly one upstream fetch (the counter goes
  from \<open>n\<close> to \<open>Suc n\<close>, and the answer is that of fetch number \<open>n\<close>); if the fetch
  succeeds, the three cache fields become the requested window, the fetched lessons
  and the sum \<^verbatim>\<open>now + self.cache_ttl\<close>, and the fetched lessons are returned. That sum
  is the exact \<open>now + ttl\<close> whenever the exact sum is a double, and a time to live
  below \<open>2 ^ 53\<close> is converted without rounding. A different window misses whatever
  the clock says. And after any run from a new backend whose requests all ran at or
  before \<open>t1\<close>, a call at a clock reading \<open>t1 + ttl + eps\<close> with \<open>eps > 0\<close> misses;
  the clock reading of that call is a double, as every clock reading is.
\<close>

theorem cache_miss_refetches:
  "(cache_range self \<noteq> (Some start_date, Some end_date)
      \<or> dval (cache_until self) \<le> dval now \<longrightarrow>
      get_lessons Client self n start_date end_date now =
        (case fetch_lessons Client n self start_date end_date of
           Inl e \<Rightarrow> (Inl e, self, Suc n)
         | Inr ls \<Rightarrow>
             (Inr ls,
              self\<lparr>cache_lessons := ls, cache_range := (Some start_date, Some end_date),
                   cache_until := dadd now (double_of_int (cache_ttl self))\<rparr>,
              Suc n)))
   \<and> (is_double (exact_add now (double_of_int (cache_ttl self)))
        \<and> \<bar>cache_ttl self\<bar> < 2 ^ 53 \<longrightarrow>
        dval (dadd now (double_of_int (cache_ttl self)))
          = dval now + real_of_int (cache_ttl self))
   \<and> (\<bar>ttl\<bar> < 2 ^ 53 \<longrightarrow> dval (double_of_int ttl) = real_of_int ttl)
   \<and> (cache_range self \<noteq> (Some start_date, Some end_date) \<longrightarrow>
        \<not> cache_hit self start_date end_date now)
   \<and> (run Client (initial (new_backend u us p e tz ttl)) rqs = (self1, n1, c1)
        \<and> (\<forall>rq\<in>set rqs. dval (snd (snd rq)) \<le> dval t1)
        \<and> is_double now2 \<and> 0 < eps
        \<and> dval now2 = dval t1 + dval (double_of_int ttl) + eps \<longrightarrow>
        \<not> cache_hit self1 start_date end_date now2)"
proof (intro conjI impI)
  assume "cache_range self \<noteq> (Some start_date, Some end_date)
            \<or> dval (cache_until self) \<le> dval now"
  then have "\<not> cache_hit self start_date end_date now"
    by (auto simp: cache_hit_iff)
  then show "get_lessons Client self n start_date end_date now =
        (case fetch_lessons Client n self start_date end_date of
           Inl e \<Rightarrow> (Inl e, self, Suc n)
         | Inr ls \<Rightarrow>
             (Inr ls,
              self\<lparr>cache_lessons := ls, cache_range := (Some start_date, Some end_date),
                   cache_until := dadd now (double_of_int (cache_ttl self))\<rparr>,
              Suc n))"
    by (simp add: get_lessons_def)
next
  assume "is_double (exact_add now (double_of_int (cache_ttl self)))
            \<and> \<bar>cache_ttl self\<bar> < 2 ^ 53"
  then show "dval (dadd now (double_of_int (cache_ttl self)))
               = dval now + real_of_int (cache_ttl self)"
    by (simp add: expiry_exact dval_double_of_int)
next
  assume "\<bar>ttl\<bar> < 2 ^ 53"
  then show "dval (double_of_int ttl) = real_of_int ttl"
    by (rule dval_double_of_int)
next
  assume "cache_range self \<noteq> (Some start_date, Some end_date)"
  then show "\<not> cache_hit self start_date end_date now"
    by (simp add: cache_hit_iff)
next
  assume run: "run Client (initial (new_backend u us p e tz ttl)) rqs = (self1, n1, c1)
        \<and> (\<forall>rq\<in>set rqs. dval (snd (snd rq)) \<le> dval t1)
        \<and> is_double now2 \<and> 0 < eps
        \<and> dval now2 = dval t1 + dval (double_of_int ttl) + eps"
  then have "dval t1 + dval (double_of_int ttl) \<le> dval now2"
    by simp
  with run show "\<not> cache_hit self1 start_date end_date now2"
    by (intro run_expired [where ?t1.0 = t1]) blast+
qed

theorem cache_miss_refetches_witness:
  "dval (cache_until warm_backend) \<le> dval (1130, 0)
   \<and> get_lessons changing_upstream warm_backend (Suc 0) window_start window_end (1130, 0)
       = (Inr [], warm_backend\<lparr>cache_lessons := [], cache_until := (1250, 0)\<rparr>, Suc (Suc 0))
   \<and> dval (dadd (1130, 0) (double_of_int (cache_ttl warm_backend))) = 1130 + 120
   \<and> cache_range warm_backend \<noteq> (Some window_start, Some (window_end + 28))
   \<and> dval (1060, 0) < dval (cache_until warm_backend)
   \<and> \<not> cache_hit warm_backend window_start (window_end + 28) (1060, 0)
   \<and> run changing_upstream (initial demo_backend) [(window_start, window_end, (1000, 0))]
       = (warm_backend, Suc 0, Some (1000, 0))
   \<and> is_double (1121, 0)
   \<and> dval (1121, 0) = dval (1000, 0) + real_of_int 120 + 1
   \<and> \<not> cache_hit warm_backend window_start window_end (1121, 0)"
proof -
  have expired: "dval (cache_until warm_backend) \<le> dval (1130, 0)"
    by (simp add: warm_backend_fields)
  have other: "cache_range warm_backend \<noteq> (Some window_start, Some (window_end + 28))"
    by (simp add: warm_backend_fields)
  have fresh: "dval (1060, 0) < dval (cache_until warm_backend)"
    by (simp add: warm_backend_fields)
  have run: "run changing_upstream
               (initial (new_backend ''https://demo.index-education.net/pronote/eleve.html''
                  ''demo'' ''secret'' [] plus_one_hour 120))
               [(window_start, window_end, (1000, 0))]
             = (warm_backend, Suc 0, Some (1000, 0))"
    using demo_run_one by (simp only: demo_backend_def)
  have times: "\<forall>rq\<in>set [(window_start, window_end, (1000, 0))].
                 dval (snd (snd rq)) \<le> dval (1000, 0)"
    by simp
  have later: "dval (1121, 0) = dval (1000, 0) + real_of_int 120 + 1"
    by simp
  have conv: "dval (double_of_int 120) = real_of_int 120"
    using cache_miss_refetches [where ttl = 120] by simp
  have repr: "is_double (1121, 0)" "is_double (exact_add (1130, 0) (double_of_int 120))"
    by (simp_all add: is_double_def exact_add_def double_of_int_def round53_def compute_bitlen)
  have refetch: "get_lessons changing_upstream warm_backend (Suc 0) window_start window_end (1130, 0)
       = (Inr [], warm_backend\<lparr>cache_lessons := [], cache_until := (1250, 0)\<rparr>, Suc (Suc 0))"
    using cache_miss_refetches [of warm_backend window_start window_end "(1130, 0)"
            changing_upstream "Suc 0"] expired
    by (simp add: fetch_changing warm_backend_fields sum_1130_120)
  have exact: "dval (dadd (1130, 0) (double_of_int (cache_ttl warm_backend))) = 1130 + 120"
    using cache_miss_refetches [of warm_backend window_start window_end "(1130, 0)"] repr
    by (simp add: warm_backend_fields)
  have window: "\<not> cache_hit warm_backend window_start (window_end + 28) (1060, 0)"
    using cache_miss_refetches [of warm_backend window_start "window_end + 28"] other
    by blast
  have late: "\<not> cache_hit warm_backend window_start window_end (1121, 0)"
    using cache_miss_refetches
            [where Client = changing_upstream
               and u = "''https://demo.index-education.net/pronote/eleve.html''"
               and us = "''demo''" and p = "''secret''" and e = "[]"
               and tz = plus_one_hour and ttl = 120
               and rqs = "[(window_start, window_end, (1000, 0))]"
               and ?self1.0 = warm_backend and ?n1.0 = "Suc 0" and ?c1.0 = "Some (1000, 0)"
               and ?t1.0 = "(1000, 0)" and ?now2.0 = "(1121, 0)" and eps = 1
               and start_date = window_start and end_date = window_end]
          run times repr(1) later conv
    by simp
  from expired refetch exact other fresh window demo_run_one repr(1) later late
  show ?thesis by blast
qed

subsection \<open>The expiry of a stored result\<close>

lemma created_step:
  "snd (snd (request_step Client st rq)) = snd (snd st)
   \<or> snd (snd (request_step Client st rq)) = Some (snd (snd rq))"
proof -
  obtain self n c where st: "st = (self, n, c)" by (cases st) auto
  obtain sd ed now where rq: "rq = (sd, ed, now)" by (cases rq) auto
  show ?thesis unfolding st rq by (auto split: prod.splits)
qed

lemma created_run:
  "snd (snd (run Client st rqs)) = snd (snd st)
   \<or> (\<exists>rq\<in>set rqs. snd (snd (run Client st rqs)) = Some (snd (snd rq)))"
proof (induction rqs arbitrary: st)
  case Nil
  show ?case by simp
next
  case (Cons rq rqs)
  from Cons.IH [of "request_step Client st rq"] created_step [of Client st rq]
  show ?case by auto
qed

text \<open>
  Claim C8, as it is written, does not hold: the expiry is the rounded sum, and the
  rounding can go down. After the one call at the clock reading \<^verbatim>\<open>0.1\<close> with a time to
  live of 120 the cache holds a result created at \<^verbatim>\<open>0.1\<close>, and its expiry, the double
  \<^verbatim>\<open>120.1\<close>, is less than the creation time plus 120.
\<close>

theorem expiry_rounding_counterexample:
  "run changing_upstream (initial demo_backend) [(window_start, window_end, clock_tenth)]
     = (early_backend, Suc 0, Some clock_tenth)
   \<and> cache_range early_backend \<noteq> (None, None)
   \<and> cache_ttl early_backend = 120
   \<and> dval (cache_until early_backend) < dval clock_tenth + real_of_int 120"
  by (intro conjI early_run_one early_backend_expiry) (simp_all add: early_backend_fields)

text \<open>
  Claim C8, amended. In every state reached from a new backend by a sequence of calls,
  if the cache holds a result (its range is no longer \<^verbatim>\<open>(None, None)\<close>), then that result
  was stored by one of the calls, at clock reading \<open>t\<close>, and \<open>cache_until\<close> is the sum
  of \<open>t\<close> and the time to live as the machine rounds it. It is the exact \<open>t + ttl\<close>
  whenever the exact sum is a double; in any case no double lies strictly between the
  exact sum and the expiry; and with a time to live that is not negative the expiry is
  not before the creation time. While the range is \<^verbatim>\<open>(None, None)\<close> nothing has been
  stored.
\<close>

theorem expiry_invariant:
  assumes "run Client (initial (new_backend u us p e tz ttl)) rqs = (self, n, created)"
  shows "(cache_range self \<noteq> (None, None) \<longrightarrow>
           (\<exists>t. created = Some t \<and> (\<exists>rq\<in>set rqs. snd (snd rq) = t)
                \<and> cache_until self = dadd t (double_of_int ttl)
                \<and> (is_double (exact_add t (double_of_int ttl)) \<longrightarrow>
                     dval (cache_until self) = dval t + dval (double_of_int ttl))
                \<and> (\<forall>d. is_double d \<and> dval d \<le> dval t + dval (double_of_int ttl) \<longrightarrow>
                     dval d \<le> dval (cache_until self))
                \<and> (\<forall>d. is_double d \<and> dval t + dval (double_of_int ttl) \<le> dval d \<longrightarrow>
                     dval (cache_until self) \<le> dval d)
                \<and> (is_double t \<and> 0 \<le> ttl \<longrightarrow> dval t \<le> dval (cache_until self))))
         \<and> (\<bar>ttl\<bar> < 2 ^ 53 \<longrightarrow> dval (double_of_int ttl) = real_of_int ttl)
         \<and> (cache_range self = (None, None) \<longrightarrow> created = None)"
proof -
  have "expiry_inv ttl (run Client (initial (new_backend u us p e tz ttl)) rqs)"
    by (rule expiry_inv_run) (rule expiry_inv_initial)
  with assms have inv: "expiry_inv ttl (self, n, created)" by simp
  from created_run [of Client "initial (new_backend u us p e tz ttl)" rqs] assms
  have from_rq: "created = None \<or> (\<exists>rq\<in>set rqs. created = Some (snd (snd rq)))"
    by (simp add: initial_def)
  have none: "created = None" if "cache_range self = (None, None)"
    using inv that by (auto simp: expiry_inv_def split: option.splits)
  have some: "\<exists>t. created = Some t \<and> (\<exists>rq\<in>set rqs. snd (snd rq) = t)
                \<and> cache_until self = dadd t (double_of_int ttl)
                \<and> (is_double (exact_add t (double_of_int ttl)) \<longrightarrow>
                     dval (cache_until self) = dval t + dval (double_of_int ttl))
                \<and> (\<forall>d. is_double d \<and> dval d \<le> dval t + dval (double_of_int ttl) \<longrightarrow>
                     dval d \<le> dval (cache_until self))
                \<and> (\<forall>d. is_double d \<and> dval t + dval (double_of_int ttl) \<le> dval d \<longrightarrow>
                     dval (cache_until self) \<le> dval d)
                \<and> (is_double t \<and> 0 \<le> ttl \<longrightarrow> dval t \<le> dval (cache_until self))"
    if set: "cache_range self \<noteq> (None, None)"
  proof -
    from inv set obtain t where t: "created = Some t"
      and until: "cache_until self = dadd t (double_of_int ttl)"
      by (auto simp: expiry_inv_def split: option.splits)
    from from_rq t have rq: "\<exists>rq\<in>set rqs. snd (snd rq) = t" by auto
    have "is_double (exact_add t (double_of_int ttl)) \<longrightarrow>
            dval (cache_until self) = dval t + dval (double_of_int ttl)"
      unfolding until by (simp add: expiry_exact)
    moreover have "\<forall>d. is_double d \<and> dval d \<le> dval t + dval (double_of_int ttl) \<longrightarrow>
                     dval d \<le> dval (cache_until self)"
      unfolding until by (simp add: expiry_not_below_double)
    moreover have "\<forall>d. is_double d \<and> dval t + dval (double_of_int ttl) \<le> dval d \<longrightarrow>
                     dval (cache_until self) \<le> dval d"
      unfolding until by (simp add: expiry_not_above_double)
    moreover have "is_double t \<and> 0 \<le> ttl \<longrightarrow> dval t \<le> dval (cache_until self)"
      unfolding until by (simp add: expiry_not_before_now)
    ultimately show ?thesis using t rq until by blast
  qed
  have "\<bar>ttl\<bar> < 2 ^ 53 \<longrightarrow> dval (double_of_int ttl) = real_of_int ttl"
    by (simp add: dval_double_of_int)
  with none some show ?thesis by blast
qed

theorem expiry_invariant_witness:
  "run changing_upstream (initial demo_backend)
     [(window_start, window_end, (1000, 0)), (window_start, window_end, (1060, 0))]
     = (warm_backend, Suc 0, Some (1000, 0))
   \<and> cache_range warm_backend \<noteq> (None, None)
   \<and> cache_until warm_backend = dadd (1000, 0) (double_of_int 120)
   \<and> is_double (exact_add (1000, 0) (double_of_int 120))
   \<and> dval (cache_until warm_backend) = 1000 + 120"
proof -
  have "run changing_upstream (initial demo_backend)
          [(window_start, window_end, (1000, 0)), (window_start, window_end, (1060, 0))]
        = run changing_upstream (warm_backend, Suc 0, Some (1000, 0))
            [(window_start, window_end, (1060, 0))]"
    using demo_run_one by simp
  also have "\<dots> = (warm_backend, Suc 0, Some (1000, 0))"
    by (rule run_all_hits) (simp add: cache_hit_iff warm_backend_fields)
  finally have run: "run changing_upstream (initial demo_backend)
          [(window_start, window_end, (1000, 0)), (window_start, window_end, (1060, 0))]
        = (warm_backend, Suc 0, Some (1000, 0))" .
  have set: "cache_range warm_backend \<noteq> (None, None)"
    by (simp add: warm_backend_fields)
  have repr: "is_double (exact_add (1000, 0) (double_of_int 120))"
    by (simp add: is_double_def exact_add_def double_of_int_def round53_def compute_bitlen)
  have small: "\<bar>120 :: int\<bar> < 2 ^ 53" by simp
  note inst = expiry_invariant [OF run [unfolded demo_backend_def]]
  from inst set have until: "cache_until warm_backend = dadd (1000, 0) (double_of_int 120)"
    by auto
  from inst set repr
  have "dval (cache_until warm_backend) = dval (1000, 0) + dval (double_of_int 120)"
    by auto
  moreover from inst small have "dval (double_of_int 120) = real_of_int 120"
    by blast
  ultimately have "dval (cache_until warm_backend) = 1000 + 120" by simp
  with run set until repr show ?thesis by blast
qed

section \<open>The time normaliser and the identifier\<close>

lemma to_local_None: "to_local tz None = Inr None"
  by (simp add: to_local_def)

lemma to_local_naive:
  "tzinfo d = None \<Longrightarrow>
   to_local tz (Some d) = Inr (Some \<lparr>wall = wall d, fold = fold d, tzinfo = Some tz\<rparr>)"
  by (simp add: to_local_def replace_tzinfo_def)

lemma to_local_same_zone: "tzinfo d = Some tz \<Longrightarrow> to_local tz (Some d) = Inr (Some d)"
  by (simp add: to_local_def astimezone_def)

lemma to_local_converted:
  "tzinfo d = Some z \<Longrightarrow> z \<noteq> tz \<Longrightarrow> converts tz d \<Longrightarrow>
   to_local tz (Some d) =
     Inr (Some \<lparr>wall = fst (fromutc tz (wall d - utcoffset z (wall d) (fold d))),
                fold = snd (fromutc tz (wall d - utcoffset z (wall d) (fold d))),
                tzinfo = Some tz\<rparr>)"
  by (auto simp: to_local_def astimezone_def converts_def Let_def)

lemma to_local_out_of_range:
  "tzinfo d = Some z \<Longrightarrow> z \<noteq> tz \<Longrightarrow> \<not> converts tz d \<Longrightarrow>
   to_local tz (Some d) = Inl OverflowError"
  by (auto simp: to_local_def astimezone_def converts_def Let_def)

text \<open>The only exception of \<open>to_local\<close>, and the only inputs that raise it.\<close>

lemma to_local_raises:
  assumes "to_local tz dt = Inl e"
  shows "e = OverflowError \<and> (\<exists>d z. dt = Some d \<and> tzinfo d = Some z \<and> z \<noteq> tz \<and> \<not> converts tz d)"
proof (cases dt)
  case None
  with assms show ?thesis by (simp add: to_local_None)
next
  case (Some d)
  show ?thesis
  proof (cases "tzinfo d")
    case None
    with assms Some show ?thesis by (simp add: to_local_naive)
  next
    case (Some z)
    note aware = this
    show ?thesis
    proof (cases "z = tz")
      case True
      with assms aware \<open>dt = Some d\<close> show ?thesis by (simp add: to_local_same_zone)
    next
      case False
      show ?thesis
      proof (cases "converts tz d")
        case True
        with assms aware False \<open>dt = Some d\<close> show ?thesis by (simp add: to_local_converted)
      next
        case no: False
        from to_local_out_of_range [OF aware False no] assms \<open>dt = Some d\<close> have "e = OverflowError"
          by simp
        with aware False no \<open>dt = Some d\<close> show ?thesis by blast
      qed
    qed
  qed
qed

lemma fixed_offset_agrees: "zone_agrees (fixed_offset i off) u"
  by (simp add: zone_agrees_def fixed_offset_def)

lemma zones_differ:
  "utc_zone \<noteq> plus_one_hour" "plus_two_hours \<noteq> plus_one_hour"
  by (simp_all add: utc_zone_def plus_one_hour_def plus_two_hours_def fixed_offset_def)

lemma seven_utc_converts:
  "converts plus_one_hour (mk_datetime 2024 3 4 7 0 0 0 (Some utc_zone))"
  by (simp add: converts_def mk_datetime_def plus_one_hour_def utc_zone_def fixed_offset_def
      in_range_def max_wall_def usec_per_day_def ymd2ord_def days_before_year_def
      days_before_month_def DAYS_BEFORE_MONTH_def is_leap_def)

lemma seven_utc_is_eight_local:
  "to_local plus_one_hour (Some (mk_datetime 2024 3 4 7 0 0 0 (Some utc_zone)))
     = Inr (Some (mk_datetime 2024 3 4 8 0 0 0 (Some plus_one_hour)))"
  by (simp add: to_local_def astimezone_def mk_datetime_def plus_one_hour_def utc_zone_def
      fixed_offset_def Let_def in_range_def max_wall_def usec_per_day_def ymd2ord_def
      days_before_year_def days_before_month_def DAYS_BEFORE_MONTH_def is_leap_def)

lemma year_one_does_not_convert:
  "\<not> converts plus_one_hour (mk_datetime 1 1 1 0 30 0 0 (Some plus_two_hours))"
  "\<not> converts plus_one_hour (mk_datetime 1 1 1 1 30 0 0 (Some plus_two_hours))"
  by (simp_all add: converts_def mk_datetime_def plus_one_hour_def plus_two_hours_def
      fixed_offset_def in_range_def max_wall_def usec_per_day_def ymd2ord_def
      days_before_year_def days_before_month_def DAYS_BEFORE_MONTH_def is_leap_def)

lemma year_one_overflows:
  "to_local plus_one_hour (Some (mk_datetime 1 1 1 0 30 0 0 (Some plus_two_hours)))
     = Inl OverflowError"
  by (rule to_local_out_of_range [where z = plus_two_hours])
     (simp_all add: year_one_does_not_convert zones_differ, simp add: mk_datetime_def)

text \<open>
  Claim C6, as it is written, does not hold: the function has an error case. The
  timestamp 0001-01-01T00:30 at UTC+02:00 carries a zone; its UTC reading would be in
  the year before year 1, so its conversion to UTC+01:00 raises \<^verbatim>\<open>OverflowError\<close>
  and \<open>to_local\<close> returns no timestamp.
\<close>

theorem to_local_overflow_counterexample:
  "tzinfo (mk_datetime 1 1 1 0 30 0 0 (Some plus_two_hours)) = Some plus_two_hours
   \<and> wall (mk_datetime 1 1 1 0 30 0 0 (Some plus_two_hours)) = 1800000000
   \<and> to_local plus_one_hour (Some (mk_datetime 1 1 1 0 30 0 0 (Some plus_two_hours)))
       = Inl OverflowError"
proof (intro conjI)
  show "tzinfo (mk_datetime 1 1 1 0 30 0 0 (Some plus_two_hours)) = Some plus_two_hours"
    by (simp add: mk_datetime_def)
  show "wall (mk_datetime 1 1 1 0 30 0 0 (Some plus_two_hours)) = 1800000000"
    by (simp add: mk_datetime_def usec_per_day_def ymd2ord_def days_before_year_def
        days_before_month_def DAYS_BEFORE_MONTH_def is_leap_def)
  show "to_local plus_one_hour (Some (mk_datetime 1 1 1 0 30 0 0 (Some plus_two_hours)))
          = Inl OverflowError"
    by (rule year_one_overflows)
qed

text \<open>
  Claim C6, amended in its last sentence. \<open>to_local\<close> maps \<^verbatim>\<open>None\<close> to \<^verbatim>\<open>None\<close>. A naive
  timestamp keeps its wall-clock reading and its fold and gets the target zone
  attached. An aware timestamp whose zone is the target zone, or whose conversion stays
  within the years 1 to 9999, comes back in the target zone: its reading there is what
  the zone's \<^verbatim>\<open>fromutc\<close> gives for the UTC reading of the input (a conversion, not a
  new label), and it denotes the same instant wherever the target zone agrees with
  itself. An aware timestamp of another zone whose conversion leaves the years 1 to
  9999 raises \<^verbatim>\<open>OverflowError\<close>; this is the only error case of the function.
\<close>

theorem to_local_normalizes:
  "to_local tz None = Inr None
   \<and> (tzinfo dn = None \<longrightarrow>
        to_local tz (Some dn) = Inr (Some \<lparr>wall = wall dn, fold = fold dn, tzinfo = Some tz\<rparr>))
   \<and> (tzinfo da = Some z \<and> (z = tz \<or> converts tz da) \<longrightarrow>
        (\<exists>d'. to_local tz (Some da) = Inr (Some d') \<and> tzinfo d' = Some tz
              \<and> (z \<noteq> tz \<longrightarrow>
                   (wall d', fold d') = fromutc tz (wall da - utcoffset z (wall da) (fold da)))
              \<and> (zone_agrees tz (wall da - utcoffset z (wall da) (fold da)) \<longrightarrow>
                   instant d' = instant da)))
   \<and> (tzinfo da = Some z \<and> z \<noteq> tz \<and> \<not> converts tz da \<longrightarrow>
        to_local tz (Some da) = Inl OverflowError)
   \<and> (to_local tz dt = Inl e \<longrightarrow>
        e = OverflowError
        \<and> (\<exists>d zd. dt = Some d \<and> tzinfo d = Some zd \<and> zd \<noteq> tz \<and> \<not> converts tz d))"
proof (intro conjI impI)
  show "to_local tz None = Inr None" by (rule to_local_None)
next
  assume "tzinfo dn = None"
  then show "to_local tz (Some dn)
               = Inr (Some \<lparr>wall = wall dn, fold = fold dn, tzinfo = Some tz\<rparr>)"
    by (rule to_local_naive)
next
  assume hyp: "tzinfo da = Some z \<and> (z = tz \<or> converts tz da)"
  then have aware: "tzinfo da = Some z" by simp
  show "\<exists>d'. to_local tz (Some da) = Inr (Some d') \<and> tzinfo d' = Some tz
              \<and> (z \<noteq> tz \<longrightarrow>
                   (wall d', fold d') = fromutc tz (wall da - utcoffset z (wall da) (fold da)))
              \<and> (zone_agrees tz (wall da - utcoffset z (wall da) (fold da)) \<longrightarrow>
                   instant d' = instant da)"
  proof (cases "z = tz")
    case True
    with aware have "to_local tz (Some da) = Inr (Some da)"
      by (simp add: to_local_same_zone)
    with aware True show ?thesis by simp
  next
    case False
    with hyp have conv: "converts tz da" by simp
    define u where "u = wall da - utcoffset z (wall da) (fold da)"
    define d' where "d' = \<lparr>wall = fst (fromutc tz u), fold = snd (fromutc tz u), tzinfo = Some tz\<rparr>"
    from to_local_converted [OF aware False conv]
    have "to_local tz (Some da) = Inr (Some d')"
      by (simp add: d'_def u_def)
    moreover have "tzinfo d' = Some tz" by (simp add: d'_def)
    moreover have "(wall d', fold d') = fromutc tz u" by (simp add: d'_def)
    moreover have "instant d' = instant da" if "zone_agrees tz u"
      using that aware
      by (simp add: instant_def dt_utcoffset_def d'_def u_def zone_agrees_def
          split: prod.splits)
    ultimately show ?thesis unfolding u_def by blast
  qed
next
  assume "tzinfo da = Some z \<and> z \<noteq> tz \<and> \<not> converts tz da"
  then show "to_local tz (Some da) = Inl OverflowError"
    by (simp add: to_local_out_of_range)
next
  assume "to_local tz dt = Inl e"
  from to_local_raises [OF this] show "e = OverflowError" by simp
next
  assume "to_local tz dt = Inl e"
  from to_local_raises [OF this]
  show "\<exists>d zd. dt = Some d \<and> tzinfo d = Some zd \<and> zd \<noteq> tz \<and> \<not> converts tz d" by simp
qed

theorem to_local_normalizes_witness:
  "tzinfo (mk_datetime 2024 3 5 10 0 0 0 None) = None
   \<and> to_local plus_one_hour (Some (mk_datetime 2024 3 5 10 0 0 0 None))
       = Inr (Some (mk_datetime 2024 3 5 10 0 0 0 (Some plus_one_hour)))
   \<and> tzinfo (mk_datetime 2024 3 4 7 0 0 0 (Some utc_zone)) = Some utc_zone
   \<and> utc_zone \<noteq> plus_one_hour
   \<and> converts plus_one_hour (mk_datetime 2024 3 4 7 0 0 0 (Some utc_zone))
   \<and> to_local plus_one_hour (Some (mk_datetime 2024 3 4 7 0 0 0 (Some utc_zone)))
       = Inr (Some (mk_datetime 2024 3 4 8 0 0 0 (Some plus_one_hour)))
   \<and> instant (mk_datetime 2024 3 4 8 0 0 0 (Some plus_one_hour))
       = instant (mk_datetime 2024 3 4 7 0 0 0 (Some utc_zone))
   \<and> tzinfo (mk_datetime 1 1 1 0 30 0 0 (Some plus_two_hours)) = Some plus_two_hours
   \<and> plus_two_hours \<noteq> plus_one_hour
   \<and> \<not> converts plus_one_hour (mk_datetime 1 1 1 0 30 0 0 (Some plus_two_hours))
   \<and> to_local plus_one_hour (Some (mk_datetime 1 1 1 0 30 0 0 (Some plus_two_hours)))
       = Inl OverflowError"
proof -
  let ?dn = "mk_datetime 2024 3 5 10 0 0 0 None"
  let ?da = "mk_datetime 2024 3 4 7 0 0 0 (Some utc_zone)"
  let ?dy = "mk_datetime 1 1 1 0 30 0 0 (Some plus_two_hours)"
  have naive: "tzinfo ?dn = None" by (simp add: mk_datetime_def)
  have aware: "tzinfo ?da = Some utc_zone" by (simp add: mk_datetime_def)
  have early: "tzinfo ?dy = Some plus_two_hours" by (simp add: mk_datetime_def)
  have agrees: "zone_agrees plus_one_hour (wall ?da - utcoffset utc_zone (wall ?da) (fold ?da))"
    unfolding plus_one_hour_def by (rule fixed_offset_agrees)
  note inst = to_local_normalizes [of plus_one_hour ?dn ?da utc_zone]
  note inst_y = to_local_normalizes [of plus_one_hour ?dn ?dy plus_two_hours]
  from inst naive
  have attached: "to_local plus_one_hour (Some ?dn)
                    = Inr (Some (mk_datetime 2024 3 5 10 0 0 0 (Some plus_one_hour)))"
    by (simp add: mk_datetime_def)
  from inst aware seven_utc_converts agrees seven_utc_is_eight_local
  have same: "instant (mk_datetime 2024 3 4 8 0 0 0 (Some plus_one_hour)) = instant ?da"
    by auto
  from inst_y early zones_differ(2) year_one_does_not_convert(1)
  have raised: "to_local plus_one_hour (Some ?dy) = Inl OverflowError"
    by blast
  from naive attached aware zones_differ seven_utc_converts seven_utc_is_eight_local same
    early year_one_does_not_convert(1) raised
  show ?thesis by blast
qed

lemma isoformat_example:
  "isoformat (mk_datetime 2024 3 4 8 0 0 0 (Some plus_one_hour)) = ''2024-03-04T08:00:00+01:00''"
  by code_simp

text \<open>The model of the digest on the standard's test message, and on the example.\<close>

lemma sha1_abc: "sha1_hexdigest ''abc'' = ''a9993e364706816aba3e25717850c26c9cd0d89d''"
  by (simp add: sha1_hexdigest_def sha1_pad_def zeros.simps schedule.simps rotl_def sha1_f_def
      sha1_k_def hex32_def hex_digit_def)

lemma sha1_example:
  "sha1_hexdigest ''2024-03-04T08:00:00+01:00|Math|B12|Dupont''
     = ''0371b769ef9c1741acfd1b226d4148f633186a1c''"
  by (simp add: sha1_hexdigest_def sha1_pad_def zeros.simps schedule.simps rotl_def sha1_f_def
      sha1_k_def hex32_def hex_digit_def)

text \<open>
  Claim C4. \<open>uid_for\<close> is the SHA-1 digest, in hexadecimal, of the bytes of
  \<open>isoformat start | title | room | teacher\<close>, followed by the fixed suffix
  \<^verbatim>\<open>@pronote-ics\<close>; being a function of its four arguments it gives the same
  identifier for the same arguments. For 2024-03-04T08:00 at UTC+01:00, Math, B12 and
  Dupont the digested string is \<^verbatim>\<open>2024-03-04T08:00:00+01:00|Math|B12|Dupont\<close>, and the
  identifier is its digest with the suffix.
\<close>

theorem uid_for_digest:
  "uid_for start_dt title room teacher
     = sha1_hexdigest (isoformat start_dt @ ''|'' @ title @ ''|'' @ room @ ''|'' @ teacher)
       @ ''@pronote-ics''
   \<and> uid_for (mk_datetime 2024 3 4 8 0 0 0 (Some plus_one_hour)) ''Math'' ''B12'' ''Dupont''
     = sha1_hexdigest ''2024-03-04T08:00:00+01:00|Math|B12|Dupont'' @ ''@pronote-ics''
   \<and> uid_for (mk_datetime 2024 3 4 8 0 0 0 (Some plus_one_hour)) ''Math'' ''B12'' ''Dupont''
     = ''0371b769ef9c1741acfd1b226d4148f633186a1c@pronote-ics''"
  by (simp add: uid_for_def isoformat_example sha1_example)

section \<open>The feed builder\<close>

subsection \<open>One turn of the loop\<close>

lemma truthy_dt_iff: "truthy_dt d \<longleftrightarrow> d \<noteq> None"
  by (cases d) simp_all

lemma has_times_iff:
  "has_times tz l \<longleftrightarrow>
     (\<exists>s e. to_local tz (getattr (lesson_start l) None) = Inr (Some s)
            \<and> to_local tz (getattr (lesson_end l) None) = Inr (Some e))"
  by (auto simp: has_times_def split: sum.splits option.splits)

lemma has_times_ok: "has_times tz l \<Longrightarrow> times_ok tz l"
  by (auto simp: has_times_iff times_ok_def)

lemma to_local_error: "isl (to_local tz dt) \<longleftrightarrow> to_local tz dt = Inl OverflowError"
proof
  assume "isl (to_local tz dt)"
  then obtain e where e: "to_local tz dt = Inl e" by (cases "to_local tz dt") simp_all
  from to_local_raises [OF e] e show "to_local tz dt = Inl OverflowError" by simp
next
  assume "to_local tz dt = Inl OverflowError"
  then show "isl (to_local tz dt)" by simp
qed

lemma to_local_ok_iff:
  "\<not> isl (to_local tz dt) \<longleftrightarrow> (\<forall>d. dt = Some d \<longrightarrow> tzinfo d = Some tz \<or> converts tz d)"
proof (cases dt)
  case None
  then show ?thesis by (simp add: to_local_None)
next
  case (Some d)
  show ?thesis
  proof (cases "tzinfo d")
    case None
    then have "converts tz d" by (simp add: converts_def)
    with None Some show ?thesis by (simp add: to_local_naive)
  next
    case aware: (Some z)
    show ?thesis
    proof (cases "z = tz")
      case True
      with aware Some show ?thesis by (simp add: to_local_same_zone)
    next
      case False
      show ?thesis
      proof (cases "converts tz d")
        case True
        with to_local_converted [OF aware False True] Some show ?thesis by simp
      next
        case no: False
        with to_local_out_of_range [OF aware False no] aware False Some show ?thesis by simp
      qed
    qed
  qed
qed

lemma times_ok_iff:
  "times_ok tz l \<longleftrightarrow>
     (\<forall>d. getattr (lesson_start l) None = Some d \<or> getattr (lesson_end l) None = Some d \<longrightarrow>
          tzinfo d = Some tz \<or> converts tz d)"
  unfolding times_ok_def to_local_ok_iff by blast

lemma lesson_event_raises_iff: "lesson_event tz l = Inl OverflowError \<longleftrightarrow> \<not> times_ok tz l"
proof (cases "to_local tz (getattr (lesson_start l) None)")
  case (Inl e)
  from to_local_raises [OF Inl] have "e = OverflowError" by simp
  with Inl show ?thesis by (simp add: lesson_event_def times_ok_def)
next
  case start: (Inr s)
  show ?thesis
  proof (cases "to_local tz (getattr (lesson_end l) None)")
    case (Inl e)
    from to_local_raises [OF Inl] have "e = OverflowError" by simp
    with Inl start show ?thesis by (simp add: lesson_event_def times_ok_def)
  next
    case (Inr e)
    with start show ?thesis by (simp add: lesson_event_def times_ok_def Let_def)
  qed
qed

lemma lesson_event_error: "lesson_event tz l = Inl e \<Longrightarrow> e = OverflowError"
  using to_local_raises [of tz "getattr (lesson_start l) None" e]
    to_local_raises [of tz "getattr (lesson_end l) None" e]
  by (auto simp: lesson_event_def Let_def split: sum.splits if_splits)

lemma lesson_event_None_iff:
  "lesson_event tz l = Inr None \<longleftrightarrow> times_ok tz l \<and> \<not> has_times tz l"
  by (auto simp: lesson_event_def times_ok_def has_times_def truthy_dt_iff Let_def
      split: sum.splits option.splits)

lemma lesson_event_Some:
  assumes "to_local tz (getattr (lesson_start l) None) = Inr (Some s)"
    and "to_local tz (getattr (lesson_end l) None) = Inr (Some e)"
  shows "lesson_event tz l =
     Inr (Some
       \<lparr>ev_summary = (if lesson_group l = [] then lesson_title l
                      else lesson_title l @ '' ('' @ lesson_group l @ '')''),
        ev_description =
          (if desc_lines (lesson_teacher_str l) (lesson_room l) (lesson_is_canceled l) \<noteq> []
           then join_lines
                  (desc_lines (lesson_teacher_str l) (lesson_room l) (lesson_is_canceled l))
           else ''S'' @ [CHR 0xC3, CHR 0xA9] @ ''ance''),
        ev_location = (if lesson_room l \<noteq> [] then Some (lesson_room l) else None),
        ev_uid = uid_for s (lesson_title l) (lesson_room l) (lesson_teacher_str l),
        ev_dtstart = s,
        ev_dtend = e,
        ev_status = (if lesson_is_canceled l then ''CANCELLED'' else ''CONFIRMED'')\<rparr>)"
  using assms unfolding lesson_event_def Let_def by simp

lemma lesson_event_made:
  "(\<exists>ev. lesson_event tz l = Inr (Some ev)) \<longleftrightarrow> has_times tz l"
proof
  assume "\<exists>ev. lesson_event tz l = Inr (Some ev)"
  then show "has_times tz l"
    by (auto simp: lesson_event_def has_times_def truthy_dt_iff Let_def
        split: sum.splits option.splits if_splits)
next
  assume "has_times tz l"
  then obtain s e where "to_local tz (getattr (lesson_start l) None) = Inr (Some s)"
    and "to_local tz (getattr (lesson_end l) None) = Inr (Some e)"
    by (auto simp: has_times_iff)
  from lesson_event_Some [OF this] show "\<exists>ev. lesson_event tz l = Inr (Some ev)" by blast
qed

subsection \<open>The loop\<close>

lemma lessons_loop_ok:
  assumes "\<forall>l\<in>set ls. times_ok tz l"
  shows "\<exists>cal'. lessons_loop tz ls cal = Inr cal'
           \<and> cal_prodid cal' = cal_prodid cal \<and> cal_version cal' = cal_version cal
           \<and> map (\<lambda>ev. Inr (Some ev)) (cal_components cal')
               = map (\<lambda>ev. Inr (Some ev)) (cal_components cal)
                 @ map (lesson_event tz) (filter (has_times tz) ls)"
  using assms
proof (induction ls arbitrary: cal)
  case Nil
  show ?case by simp
next
  case (Cons l ls)
  from Cons.prems have ok: "times_ok tz l" and rest: "\<forall>l\<in>set ls. times_ok tz l"
    by simp_all
  show ?case
  proof (cases "has_times tz l")
    case False
    with ok have "lesson_event tz l = Inr None" by (simp add: lesson_event_None_iff)
    with Cons.IH [OF rest, of cal] False show ?thesis by simp
  next
    case True
    then obtain ev where ev: "lesson_event tz l = Inr (Some ev)"
      using lesson_event_made [of tz l] by blast
    from Cons.IH [OF rest, of "add_component cal ev"] ev True show ?thesis
      by (auto simp: add_component_def)
  qed
qed

lemma lessons_loop_raises:
  assumes "\<exists>l\<in>set ls. \<not> times_ok tz l"
  shows "lessons_loop tz ls cal = Inl OverflowError"
  using assms
proof (induction ls arbitrary: cal)
  case Nil
  then show ?case by simp
next
  case (Cons l ls)
  show ?case
  proof (cases "times_ok tz l")
    case False
    then have "lesson_event tz l = Inl OverflowError" by (simp add: lesson_event_raises_iff)
    then show ?thesis by simp
  next
    case True
    with Cons.prems have rest: "\<exists>l\<in>set ls. \<not> times_ok tz l" by simp
    show ?thesis
    proof (cases "lesson_event tz l")
      case (Inl e)
      with True lesson_event_error [OF Inl] show ?thesis
        by (simp add: lesson_event_raises_iff)
    next
      case (Inr r)
      with Cons.IH [OF rest] show ?thesis by (cases r) simp_all
    qed
  qed
qed

subsection \<open>The example lessons, evaluated\<close>

lemma math_lesson_start:
  "to_local plus_one_hour (getattr (lesson_start math_lesson) None)
     = Inr (Some (mk_datetime 2024 3 4 8 0 0 0 (Some plus_one_hour)))"
  by (simp add: math_lesson_def no_lesson_def to_local_def astimezone_def mk_datetime_def)

lemma math_lesson_end:
  "to_local plus_one_hour (getattr (lesson_end math_lesson) None)
     = Inr (Some (mk_datetime 2024 3 4 9 0 0 0 (Some plus_one_hour)))"
  by (simp add: math_lesson_def no_lesson_def to_local_def astimezone_def mk_datetime_def)

lemma untitled_lesson_start:
  "to_local plus_one_hour (getattr (lesson_start untitled_lesson) None)
     = Inr (Some (mk_datetime 2024 3 5 10 0 0 0 (Some plus_one_hour)))"
  by (simp add: untitled_lesson_def no_lesson_def to_local_def replace_tzinfo_def
      mk_datetime_def)

lemma untitled_lesson_end:
  "to_local plus_one_hour (getattr (lesson_end untitled_lesson) None)
     = Inr (Some (mk_datetime 2024 3 5 11 0 0 0 (Some plus_one_hour)))"
  by (simp add: untitled_lesson_def no_lesson_def to_local_def replace_tzinfo_def
      mk_datetime_def)

lemma untimed_lesson_start:
  "to_local plus_one_hour (getattr (lesson_start untimed_lesson) None) = Inr None"
  by (simp add: untimed_lesson_def math_lesson_def no_lesson_def to_local_def)

lemma untimed_lesson_end:
  "to_local plus_one_hour (getattr (lesson_end untimed_lesson) None)
     = Inr (Some (mk_datetime 2024 3 4 9 0 0 0 (Some plus_one_hour)))"
  by (simp add: untimed_lesson_def math_lesson_def no_lesson_def to_local_def astimezone_def
      mk_datetime_def)

lemma year_one_lesson_start:
  "to_local plus_one_hour (getattr (lesson_start year_one_lesson) None) = Inl OverflowError"
  using year_one_overflows by (simp add: year_one_lesson_def math_lesson_def no_lesson_def)

lemma math_lesson_has_times: "has_times plus_one_hour math_lesson"
  by (simp add: has_times_def math_lesson_start math_lesson_end)

lemma untitled_lesson_has_times: "has_times plus_one_hour untitled_lesson"
  by (simp add: has_times_def untitled_lesson_start untitled_lesson_end)

lemma untimed_lesson_has_no_times: "\<not> has_times plus_one_hour untimed_lesson"
  by (simp add: has_times_def untimed_lesson_start)

lemma untimed_lesson_times_ok: "times_ok plus_one_hour untimed_lesson"
  by (simp add: times_ok_def untimed_lesson_start untimed_lesson_end)

lemma year_one_lesson_not_ok: "\<not> times_ok plus_one_hour year_one_lesson"
  by (simp add: times_ok_def year_one_lesson_start)

lemma math_lesson_fields:
  "lesson_title math_lesson = ''Math''" "lesson_room math_lesson = ''B12''"
  "lesson_teacher_str math_lesson = ''Dupont''" "lesson_group math_lesson = []"
  "lesson_is_canceled math_lesson = False"
  by (simp_all add: math_lesson_def no_lesson_def lesson_title_def lesson_room_def
      lesson_teacher_str_def lesson_group_def lesson_is_canceled_def or_literal_def py_or_def)

lemma untitled_lesson_fields:
  "lesson_title untitled_lesson = ''Cours''" "lesson_room untitled_lesson = []"
  "lesson_teacher_str untitled_lesson = []" "lesson_group untitled_lesson = ''G1''"
  "lesson_is_canceled untitled_lesson = False"
  by (simp_all add: untitled_lesson_def no_lesson_def lesson_title_def lesson_room_def
      lesson_teacher_str_def lesson_group_def lesson_is_canceled_def or_literal_def py_or_def)

text \<open>
  The example of the specification end to end: summary Math, a description naming
  Dupont and B12, location B12, status CONFIRMED, and the identifier of claim C4.
\<close>

lemma math_lesson_event:
  "lesson_event plus_one_hour math_lesson =
     Inr (Some
       \<lparr>ev_summary = ''Math'',
        ev_description = ''Enseignant'' @ [CHR 0xC2, CHR 0xB7] @ ''e : Dupont''
                         @ [CHR 0x0A] @ ''Salle : B12'',
        ev_location = Some ''B12'',
        ev_uid = ''0371b769ef9c1741acfd1b226d4148f633186a1c@pronote-ics'',
        ev_dtstart = mk_datetime 2024 3 4 8 0 0 0 (Some plus_one_hour),
        ev_dtend = mk_datetime 2024 3 4 9 0 0 0 (Some plus_one_hour),
        ev_status = ''CONFIRMED''\<rparr>)"
  by (simp add: lesson_event_Some [OF math_lesson_start math_lesson_end] math_lesson_fields
      desc_lines_def uid_for_def isoformat_example sha1_example)

lemma untitled_lesson_summary:
  "map_sum id (map_option ev_summary) (lesson_event plus_one_hour untitled_lesson)
     = Inr (Some ''Cours (G1)'')"
  by (simp add: lesson_event_Some [OF untitled_lesson_start untitled_lesson_end]
      untitled_lesson_fields)

subsection \<open>Cancellation\<close>

lemma canceled_update_fields:
  "lesson_title (l\<lparr>lesson_canceled := c\<rparr>) = lesson_title l"
  "lesson_room (l\<lparr>lesson_canceled := c\<rparr>) = lesson_room l"
  "lesson_teacher_str (l\<lparr>lesson_canceled := c\<rparr>) = lesson_teacher_str l"
  "lesson_group (l\<lparr>lesson_canceled := c\<rparr>) = lesson_group l"
  "has_times tz (l\<lparr>lesson_canceled := c\<rparr>) = has_times tz l"
  "lesson_is_canceled (l\<lparr>lesson_canceled := Attr (Some b)\<rparr>) = b"
  by (simp_all add: lesson_title_def lesson_room_def lesson_teacher_str_def lesson_group_def
      has_times_def lesson_is_canceled_def)

text \<open>
  Claim C5. For a lesson whose start and end normalise to timestamps, the record with
  \<^verbatim>\<open>canceled = True\<close> gives an event of status CANCELLED, the record with
  \<^verbatim>\<open>canceled = False\<close> an event of status CONFIRMED, and the two events have the same
  identifier. Whatever is put in the \<^verbatim>\<open>canceled\<close> attribute, the identifier is the one
  of the record as it was.
\<close>

theorem cancellation_keeps_uid:
  assumes "has_times tz l"
  shows "(\<exists>e1 e0. lesson_event tz (l\<lparr>lesson_canceled := Attr (Some True)\<rparr>) = Inr (Some e1)
            \<and> lesson_event tz (l\<lparr>lesson_canceled := Attr (Some False)\<rparr>) = Inr (Some e0)
            \<and> ev_status e1 = ''CANCELLED'' \<and> ev_status e0 = ''CONFIRMED''
            \<and> ev_uid e1 = ev_uid e0)
         \<and> (\<exists>ec e. lesson_event tz (l\<lparr>lesson_canceled := c\<rparr>) = Inr (Some ec)
              \<and> lesson_event tz l = Inr (Some e) \<and> ev_uid ec = ev_uid e)"
proof -
  from assms obtain s e
    where s: "to_local tz (getattr (lesson_start l) None) = Inr (Some s)"
      and e: "to_local tz (getattr (lesson_end l) None) = Inr (Some e)"
    by (auto simp: has_times_iff)
  have s': "to_local tz (getattr (lesson_start (l\<lparr>lesson_canceled := c'\<rparr>)) None) = Inr (Some s)"
    and e': "to_local tz (getattr (lesson_end (l\<lparr>lesson_canceled := c'\<rparr>)) None) = Inr (Some e)"
    for c'
    using s e by simp_all
  note plain = lesson_event_Some [OF s e]
  note changed = lesson_event_Some [OF s' e']
  have uid: "map_sum id (map_option ev_uid) (lesson_event tz (l\<lparr>lesson_canceled := c'\<rparr>))
               = Inr (Some (uid_for s (lesson_title l) (lesson_room l) (lesson_teacher_str l)))"
    for c'
    by (simp add: changed canceled_update_fields)
  have uid0: "map_sum id (map_option ev_uid) (lesson_event tz l)
               = Inr (Some (uid_for s (lesson_title l) (lesson_room l) (lesson_teacher_str l)))"
    by (simp add: plain)
  have on: "map_sum id (map_option ev_status)
              (lesson_event tz (l\<lparr>lesson_canceled := Attr (Some True)\<rparr>))
              = Inr (Some ''CANCELLED'')"
    by (simp add: changed canceled_update_fields)
  have off: "map_sum id (map_option ev_status)
               (lesson_event tz (l\<lparr>lesson_canceled := Attr (Some False)\<rparr>))
              = Inr (Some ''CONFIRMED'')"
    by (simp add: changed canceled_update_fields)
  obtain e1 where e1: "lesson_event tz (l\<lparr>lesson_canceled := Attr (Some True)\<rparr>) = Inr (Some e1)"
    by (simp add: changed)
  obtain e0 where e0: "lesson_event tz (l\<lparr>lesson_canceled := Attr (Some False)\<rparr>) = Inr (Some e0)"
    by (simp add: changed)
  obtain ec where ec: "lesson_event tz (l\<lparr>lesson_canceled := c\<rparr>) = Inr (Some ec)"
    by (simp add: changed)
  obtain ep where ep: "lesson_event tz l = Inr (Some ep)"
    by (simp add: plain)
  from on e1 have s1: "ev_status e1 = ''CANCELLED''" by simp
  from off e0 have s0: "ev_status e0 = ''CONFIRMED''" by simp
  from uid [of "Attr (Some True)"] uid [of "Attr (Some False)"] e1 e0
  have same: "ev_uid e1 = ev_uid e0" by simp
  from uid [of c] uid0 ec ep have "ev_uid ec = ev_uid ep" by simp
  with e1 e0 s1 s0 same ec ep show ?thesis by blast
qed

theorem cancellation_keeps_uid_witness:
  "has_times plus_one_hour math_lesson
   \<and> map_sum id (map_option ev_status)
        (lesson_event plus_one_hour
           (math_lesson\<lparr>lesson_canceled := Attr (Some True)\<rparr>))
       = Inr (Some ''CANCELLED'')
   \<and> map_sum id (map_option ev_uid)
        (lesson_event plus_one_hour
           (math_lesson\<lparr>lesson_canceled := Attr (Some True)\<rparr>))
       = Inr (Some ''0371b769ef9c1741acfd1b226d4148f633186a1c@pronote-ics'')
   \<and> map_sum id (map_option ev_status) (lesson_event plus_one_hour math_lesson)
       = Inr (Some ''CONFIRMED'')
   \<and> map_sum id (map_option ev_uid) (lesson_event plus_one_hour math_lesson)
       = Inr (Some ''0371b769ef9c1741acfd1b226d4148f633186a1c@pronote-ics'')"
proof -
  let ?on = "math_lesson\<lparr>lesson_canceled := Attr (Some True)\<rparr>"
  have u0: "map_sum id (map_option ev_uid) (lesson_event plus_one_hour math_lesson)
              = Inr (Some ''0371b769ef9c1741acfd1b226d4148f633186a1c@pronote-ics'')"
    by (simp add: math_lesson_event)
  have s0: "map_sum id (map_option ev_status) (lesson_event plus_one_hour math_lesson)
              = Inr (Some ''CONFIRMED'')"
    by (simp add: math_lesson_event)
  note inst = cancellation_keeps_uid
    [OF math_lesson_has_times, of "Attr (Some True)"]
  from inst obtain e1
    where "lesson_event plus_one_hour ?on = Inr (Some e1)"
      and "ev_status e1 = ''CANCELLED''"
    by blast
  then have s1: "map_sum id (map_option ev_status) (lesson_event plus_one_hour ?on)
       = Inr (Some ''CANCELLED'')"
    by simp
  from inst obtain ec e
    where ec: "lesson_event plus_one_hour ?on = Inr (Some ec)"
      and e: "lesson_event plus_one_hour math_lesson = Inr (Some e)"
      and same: "ev_uid ec = ev_uid e"
    by blast
  from e u0 have "ev_uid e = ''0371b769ef9c1741acfd1b226d4148f633186a1c@pronote-ics''"
    by simp
  with ec same
  have u1: "map_sum id (map_option ev_uid) (lesson_event plus_one_hour ?on)
       = Inr (Some ''0371b769ef9c1741acfd1b226d4148f633186a1c@pronote-ics'')"
    by simp
  from math_lesson_has_times s1 u1 s0 u0 show ?thesis by blast
qed

subsection \<open>Records without a time\<close>

text \<open>
  Claim C7, as it is written, does not hold: a record can abort the whole build. The
  first lesson below carries timestamps of the first day of year 1 at UTC+02:00, whose
  conversion raises \<^verbatim>\<open>OverflowError\<close>; the exception leaves the loop, and the build of
  the two lessons returns no document, although the Math lesson has both timestamps.
\<close>

theorem build_overflow_counterexample:
  "lesson_event plus_one_hour year_one_lesson = Inl OverflowError
   \<and> has_times plus_one_hour math_lesson
   \<and> lessons_calendar plus_one_hour [year_one_lesson, math_lesson] = Inl OverflowError
   \<and> lessons_to_ics cal_components plus_one_hour [year_one_lesson, math_lesson]
       = Inl OverflowError"
proof -
  have first: "lesson_event plus_one_hour year_one_lesson = Inl OverflowError"
    by (simp add: lesson_event_raises_iff year_one_lesson_not_ok)
  then have "lessons_calendar plus_one_hour [year_one_lesson, math_lesson] = Inl OverflowError"
    by (simp add: lessons_calendar_def)
  then show ?thesis
    using first math_lesson_has_times by (simp add: lessons_to_ics_def)
qed

text \<open>
  Claim C7, amended. A lesson whose start or end normalises to \<^verbatim>\<open>None\<close> gives no
  event; a lesson with both gives one event, which carries the two normalised
  timestamps; a lesson one of whose timestamps cannot be converted (it carries another
  zone and its conversion leaves the years 1 to 9999) raises \<^verbatim>\<open>OverflowError\<close>. When
  no lesson of the list raises, the build succeeds and the events of the calendar are,
  in order, those of the lessons that have both times, and no others, and
  \<open>lessons_to_ics\<close> returns the serialisation of that calendar. When some lesson of the
  list raises, the whole build ends in \<^verbatim>\<open>OverflowError\<close>.
\<close>

theorem skip_on_missing_time:
  "(lesson_event tz l = Inr None \<longleftrightarrow> times_ok tz l \<and> \<not> has_times tz l)
   \<and> (has_times tz l \<longrightarrow>
        (\<exists>ev. lesson_event tz l = Inr (Some ev)
              \<and> Inr (Some (ev_dtstart ev)) = to_local tz (getattr (lesson_start l) None)
              \<and> Inr (Some (ev_dtend ev)) = to_local tz (getattr (lesson_end l) None)))
   \<and> (lesson_event tz l = Inl OverflowError \<longleftrightarrow> \<not> times_ok tz l)
   \<and> (times_ok tz l \<longleftrightarrow>
        (\<forall>d. getattr (lesson_start l) None = Some d \<or> getattr (lesson_end l) None = Some d \<longrightarrow>
             tzinfo d = Some tz \<or> converts tz d))
   \<and> ((\<forall>l\<in>set ls. times_ok tz l) \<longrightarrow>
        (\<exists>cal. lessons_calendar tz ls = Inr cal
               \<and> map (\<lambda>ev. Inr (Some ev)) (cal_components cal)
                   = map (lesson_event tz) (filter (has_times tz) ls)
               \<and> length (cal_components cal) = length (filter (has_times tz) ls)
               \<and> lessons_to_ics to_ical tz ls = Inr (to_ical cal)))
   \<and> ((\<exists>l\<in>set ls. \<not> times_ok tz l) \<longrightarrow>
        lessons_calendar tz ls = Inl OverflowError
        \<and> lessons_to_ics to_ical tz ls = Inl OverflowError)"
proof (intro conjI impI)
  show "lesson_event tz l = Inr None \<longleftrightarrow> times_ok tz l \<and> \<not> has_times tz l"
    by (rule lesson_event_None_iff)
next
  assume "has_times tz l"
  then obtain s e where s: "to_local tz (getattr (lesson_start l) None) = Inr (Some s)"
    and e: "to_local tz (getattr (lesson_end l) None) = Inr (Some e)"
    by (auto simp: has_times_iff)
  show "\<exists>ev. lesson_event tz l = Inr (Some ev)
              \<and> Inr (Some (ev_dtstart ev)) = to_local tz (getattr (lesson_start l) None)
              \<and> Inr (Some (ev_dtend ev)) = to_local tz (getattr (lesson_end l) None)"
    by (simp add: lesson_event_Some [OF s e] s e)
next
  show "lesson_event tz l = Inl OverflowError \<longleftrightarrow> \<not> times_ok tz l"
    by (rule lesson_event_raises_iff)
next
  show "times_ok tz l \<longleftrightarrow>
        (\<forall>d. getattr (lesson_start l) None = Some d \<or> getattr (lesson_end l) None = Some d \<longrightarrow>
             tzinfo d = Some tz \<or> converts tz d)"
    by (rule times_ok_iff)
next
  assume ok: "\<forall>l\<in>set ls. times_ok tz l"
  from lessons_loop_ok [OF ok]
  obtain cal where cal: "lessons_calendar tz ls = Inr cal"
    and events: "map (\<lambda>ev. Inr (Some ev)) (cal_components cal)
                   = map (lesson_event tz) (filter (has_times tz) ls)"
    unfolding lessons_calendar_def by fastforce
  from events have "length (map (\<lambda>ev. Inr (Some ev) :: exn + event option) (cal_components cal))
                      = length (map (lesson_event tz) (filter (has_times tz) ls))"
    by simp
  then have "length (cal_components cal) = length (filter (has_times tz) ls)"
    by simp
  moreover from cal have "lessons_to_ics to_ical tz ls = Inr (to_ical cal)"
    by (simp add: lessons_to_ics_def)
  ultimately show "\<exists>cal. lessons_calendar tz ls = Inr cal
               \<and> map (\<lambda>ev. Inr (Some ev)) (cal_components cal)
                   = map (lesson_event tz) (filter (has_times tz) ls)
               \<and> length (cal_components cal) = length (filter (has_times tz) ls)
               \<and> lessons_to_ics to_ical tz ls = Inr (to_ical cal)"
    using cal events by blast
next
  assume "\<exists>l\<in>set ls. \<not> times_ok tz l"
  then show "lessons_calendar tz ls = Inl OverflowError"
    unfolding lessons_calendar_def by (rule lessons_loop_raises)
next
  assume "\<exists>l\<in>set ls. \<not> times_ok tz l"
  then have "lessons_calendar tz ls = Inl OverflowError"
    unfolding lessons_calendar_def by (rule lessons_loop_raises)
  then show "lessons_to_ics to_ical tz ls = Inl OverflowError"
    by (simp add: lessons_to_ics_def)
qed

theorem skip_on_missing_time_witness:
  "times_ok plus_one_hour untimed_lesson \<and> \<not> has_times plus_one_hour untimed_lesson
   \<and> lesson_event plus_one_hour untimed_lesson = Inr None
   \<and> has_times plus_one_hour math_lesson \<and> has_times plus_one_hour untitled_lesson
   \<and> (\<exists>cal. lessons_calendar plus_one_hour [math_lesson, untimed_lesson, untitled_lesson]
              = Inr cal
            \<and> map (\<lambda>ev. Inr (Some ev)) (cal_components cal)
                = [lesson_event plus_one_hour math_lesson,
                   lesson_event plus_one_hour untitled_lesson]
            \<and> length (cal_components cal) = 2)
   \<and> \<not> times_ok plus_one_hour year_one_lesson
   \<and> lessons_calendar plus_one_hour [math_lesson, year_one_lesson] = Inl OverflowError"
proof -
  let ?ls = "[math_lesson, untimed_lesson, untitled_lesson]"
  note inst = skip_on_missing_time
    [of plus_one_hour untimed_lesson ?ls "\<lambda>cal. cal"]
  note inst_y = skip_on_missing_time
    [of plus_one_hour untimed_lesson "[math_lesson, year_one_lesson]" "\<lambda>cal. cal"]
  from inst untimed_lesson_times_ok untimed_lesson_has_no_times
  have skipped: "lesson_event plus_one_hour untimed_lesson = Inr None"
    by blast
  have ok: "\<forall>l\<in>set ?ls. times_ok plus_one_hour l"
    by (simp add: has_times_ok math_lesson_has_times untitled_lesson_has_times
        untimed_lesson_times_ok)
  have kept: "filter (has_times plus_one_hour) ?ls = [math_lesson, untitled_lesson]"
    by (simp add: math_lesson_has_times untimed_lesson_has_no_times untitled_lesson_has_times)
  from inst ok obtain cal
    where cal: "lessons_calendar plus_one_hour ?ls = Inr cal"
      and events: "map (\<lambda>ev. Inr (Some ev)) (cal_components cal)
                     = map (lesson_event plus_one_hour) (filter (has_times plus_one_hour) ?ls)"
      and count: "length (cal_components cal) = length (filter (has_times plus_one_hour) ?ls)"
    by blast
  from events have events': "map (\<lambda>ev. Inr (Some ev)) (cal_components cal)
       = [lesson_event plus_one_hour math_lesson, lesson_event plus_one_hour untitled_lesson]"
    unfolding kept by simp
  from count have count': "length (cal_components cal) = 2"
    unfolding kept by simp
  have bad: "\<exists>l\<in>set [math_lesson, year_one_lesson]. \<not> times_ok plus_one_hour l"
    by (simp add: year_one_lesson_not_ok)
  with inst_y
  have raised: "lessons_calendar plus_one_hour [math_lesson, year_one_lesson] = Inl OverflowError"
    by blast
  have "\<exists>cal. lessons_calendar plus_one_hour ?ls = Inr cal
            \<and> map (\<lambda>ev. Inr (Some ev)) (cal_components cal)
                = [lesson_event plus_one_hour math_lesson,
                   lesson_event plus_one_hour untitled_lesson]
            \<and> length (cal_components cal) = 2"
  proof (intro exI conjI)
    show "lessons_calendar plus_one_hour ?ls = Inr cal" by (rule cal)
    show "map (\<lambda>ev. Inr (Some ev)) (cal_components cal)
            = [lesson_event plus_one_hour math_lesson,
               lesson_event plus_one_hour untitled_lesson]"
      by (rule events')
    show "length (cal_components cal) = 2" by (rule count')
  qed
  with untimed_lesson_times_ok untimed_lesson_has_no_times skipped math_lesson_has_times
    untitled_lesson_has_times year_one_lesson_not_ok raised
  show ?thesis by blast
qed

subsection \<open>Display fields\<close>

text \<open>
  Claim C9, as it is written, does not hold: the default title of the program is
  \<^verbatim>\<open>Cours\<close>, not \<^verbatim>\<open>Lesson\<close>. The lesson below has \<^verbatim>\<open>subject = None\<close>, an empty
  \<^verbatim>\<open>subject_name\<close> and the group G1; its title is \<^verbatim>\<open>Cours\<close> and the summary of its
  event is \<^verbatim>\<open>Cours (G1)\<close>.
\<close>

theorem title_default_counterexample:
  "\<not> truthy_str (getattr (lesson_subject untitled_lesson) None)
   \<and> \<not> truthy_str (getattr (lesson_subject_name untitled_lesson) (Some []))
   \<and> lesson_title untitled_lesson = ''Cours''
   \<and> lesson_title untitled_lesson \<noteq> ''Lesson''
   \<and> map_sum id (map_option ev_summary) (lesson_event plus_one_hour untitled_lesson)
       = Inr (Some ''Cours (G1)'')"
  by (intro conjI untitled_lesson_summary)
     (simp_all add: untitled_lesson_fields, simp_all add: untitled_lesson_def no_lesson_def)

text \<open>
  Claim C9, amended in the default only: the title is the \<^verbatim>\<open>subject\<close> attribute when
  that is a non-empty string, else the \<^verbatim>\<open>subject_name\<close> attribute when that is one,
  else \<^verbatim>\<open>Cours\<close>; room and teacher are the empty string when neither of their two
  attributes is a non-empty string; the group is the \<^verbatim>\<open>group_name\<close> attribute or the
  empty string; and the summary of the event is the title when the group is empty and
  \<open>title (group)\<close> otherwise.
\<close>

theorem display_fields_fallback:
  "(truthy_str (getattr (lesson_subject l) None) \<longrightarrow>
      getattr (lesson_subject l) None = Some (lesson_title l))
   \<and> (\<not> truthy_str (getattr (lesson_subject l) None)
        \<and> truthy_str (getattr (lesson_subject_name l) (Some [])) \<longrightarrow>
      getattr (lesson_subject_name l) (Some []) = Some (lesson_title l))
   \<and> (\<not> truthy_str (getattr (lesson_subject l) None)
        \<and> \<not> truthy_str (getattr (lesson_subject_name l) (Some [])) \<longrightarrow>
      lesson_title l = ''Cours'')
   \<and> (\<not> truthy_str (getattr (lesson_classroom l) (Some []))
        \<and> \<not> truthy_str (getattr (lesson_classroom_name l) (Some [])) \<longrightarrow>
      lesson_room l = [])
   \<and> (\<not> truthy_str (getattr (lesson_teacher l) (Some []))
        \<and> \<not> truthy_str (getattr (lesson_teacher_name l) (Some [])) \<longrightarrow>
      lesson_teacher_str l = [])
   \<and> (truthy_str (getattr (lesson_group_name l) (Some [])) \<longrightarrow>
      getattr (lesson_group_name l) (Some []) = Some (lesson_group l))
   \<and> (\<not> truthy_str (getattr (lesson_group_name l) (Some [])) \<longrightarrow> lesson_group l = [])
   \<and> (lesson_event tz l = Inr (Some ev) \<longrightarrow>
      ev_summary ev = (if lesson_group l = [] then lesson_title l
                       else lesson_title l @ '' ('' @ lesson_group l @ '')''))"
proof -
  have lit: "or_literal a s = (if truthy_str a then the a else s)" for a s
    by (cases a) (simp_all add: or_literal_def py_or_def)
  have chain: "truthy_str (py_or a b) \<longleftrightarrow> truthy_str a \<or> truthy_str b" for a b
    by (simp add: py_or_def)
  have val: "truthy_str a \<Longrightarrow> a = Some (the a)" for a
    by (cases a) simp_all
  have summary: "ev_summary ev = (if lesson_group l = [] then lesson_title l
                       else lesson_title l @ '' ('' @ lesson_group l @ '')'')"
    if ev: "lesson_event tz l = Inr (Some ev)"
  proof -
    from ev have "has_times tz l" using lesson_event_made [of tz l] by blast
    then obtain s e where "to_local tz (getattr (lesson_start l) None) = Inr (Some s)"
      and "to_local tz (getattr (lesson_end l) None) = Inr (Some e)"
      by (auto simp: has_times_iff)
    from lesson_event_Some [OF this] ev show ?thesis by auto
  qed
  show ?thesis
    by (intro conjI impI summary)
       (auto simp: lesson_title_def lesson_room_def lesson_teacher_str_def lesson_group_def
          lit chain py_or_def dest: val)
qed

theorem display_fields_fallback_witness:
  "truthy_str (getattr (lesson_subject math_lesson) None)
   \<and> lesson_title math_lesson = ''Math''
   \<and> map_sum id (map_option ev_summary) (lesson_event plus_one_hour math_lesson)
       = Inr (Some ''Math'')
   \<and> \<not> truthy_str (getattr (lesson_subject untitled_lesson) None)
   \<and> \<not> truthy_str (getattr (lesson_subject_name untitled_lesson) (Some []))
   \<and> lesson_title untitled_lesson = ''Cours''
   \<and> lesson_room untitled_lesson = [] \<and> lesson_teacher_str untitled_lesson = []
   \<and> lesson_group untitled_lesson = ''G1''
   \<and> map_sum id (map_option ev_summary) (lesson_event plus_one_hour untitled_lesson)
       = Inr (Some ''Cours (G1)'')
   \<and> lesson_title (untitled_lesson\<lparr>lesson_subject_name := Attr (Some ''Histoire'')\<rparr>)
       = ''Histoire''"
proof -
  let ?renamed = "untitled_lesson\<lparr>lesson_subject_name := Attr (Some ''Histoire'')\<rparr>"
  obtain em where em: "lesson_event plus_one_hour math_lesson = Inr (Some em)"
    using lesson_event_made [of plus_one_hour math_lesson]
      math_lesson_has_times by blast
  obtain eu where eu: "lesson_event plus_one_hour untitled_lesson = Inr (Some eu)"
    using lesson_event_made [of plus_one_hour untitled_lesson]
      untitled_lesson_has_times by blast
  have attrs:
    "getattr (lesson_subject math_lesson) None = Some ''Math''"
    "getattr (lesson_group_name math_lesson) (Some []) = Some []"
    "getattr (lesson_subject untitled_lesson) None = None"
    "getattr (lesson_subject_name untitled_lesson) (Some []) = Some []"
    "getattr (lesson_classroom untitled_lesson) (Some []) = Some []"
    "getattr (lesson_classroom_name untitled_lesson) (Some []) = Some []"
    "getattr (lesson_teacher untitled_lesson) (Some []) = Some []"
    "getattr (lesson_teacher_name untitled_lesson) (Some []) = Some []"
    "getattr (lesson_group_name untitled_lesson) (Some []) = Some ''G1''"
    "getattr (lesson_subject ?renamed) None = None"
    "getattr (lesson_subject_name ?renamed) (Some []) = Some ''Histoire''"
    by (simp_all add: math_lesson_def untitled_lesson_def no_lesson_def)
  have truth:
    "truthy_str (getattr (lesson_subject math_lesson) None)"
    "\<not> truthy_str (getattr (lesson_group_name math_lesson) (Some []))"
    "\<not> truthy_str (getattr (lesson_subject untitled_lesson) None)"
    "\<not> truthy_str (getattr (lesson_subject_name untitled_lesson) (Some []))"
    "\<not> truthy_str (getattr (lesson_classroom untitled_lesson) (Some []))"
    "\<not> truthy_str (getattr (lesson_classroom_name untitled_lesson) (Some []))"
    "\<not> truthy_str (getattr (lesson_teacher untitled_lesson) (Some []))"
    "\<not> truthy_str (getattr (lesson_teacher_name untitled_lesson) (Some []))"
    "truthy_str (getattr (lesson_group_name untitled_lesson) (Some []))"
    "\<not> truthy_str (getattr (lesson_subject ?renamed) None)"
    "truthy_str (getattr (lesson_subject_name ?renamed) (Some []))"
    by (simp_all add: attrs)
  note m = display_fields_fallback [of math_lesson plus_one_hour em]
  note u = display_fields_fallback [of untitled_lesson plus_one_hour eu]
  note r = display_fields_fallback [of ?renamed plus_one_hour eu]
  from m truth have "getattr (lesson_subject math_lesson) None = Some (lesson_title math_lesson)"
    by blast
  then have m_title: "lesson_title math_lesson = ''Math''"
    by (simp add: attrs)
  from m truth have m_group: "lesson_group math_lesson = []"
    by blast
  from m em have "ev_summary em = (if lesson_group math_lesson = [] then lesson_title math_lesson
                       else lesson_title math_lesson @ '' ('' @ lesson_group math_lesson @ '')'')"
    by blast
  then have m_summary:
    "map_sum id (map_option ev_summary) (lesson_event plus_one_hour math_lesson)
       = Inr (Some ''Math'')"
    by (simp add: em m_title m_group)
  from u truth have u_title: "lesson_title untitled_lesson = ''Cours''"
    by blast
  from u truth have u_room: "lesson_room untitled_lesson = []"
    by blast
  from u truth have u_teacher: "lesson_teacher_str untitled_lesson = []"
    by blast
  from u truth
  have "getattr (lesson_group_name untitled_lesson) (Some []) = Some (lesson_group untitled_lesson)"
    by blast
  then have u_group: "lesson_group untitled_lesson = ''G1''"
    by (simp add: attrs)
  from u eu
  have "ev_summary eu = (if lesson_group untitled_lesson = [] then lesson_title untitled_lesson
          else lesson_title untitled_lesson @ '' ('' @ lesson_group untitled_lesson @ '')'')"
    by blast
  then have u_summary:
    "map_sum id (map_option ev_summary) (lesson_event plus_one_hour untitled_lesson)
       = Inr (Some ''Cours (G1)'')"
    by (simp add: eu u_title u_group)
  from r truth
  have "getattr (lesson_subject_name ?renamed) (Some []) = Some (lesson_title ?renamed)"
    by blast
  then have r_title: "lesson_title ?renamed = ''Histoire''"
    by (simp add: attrs)
  from truth m_title m_summary u_title u_room u_teacher u_group u_summary r_title
  show ?thesis by blast
qed

end
